theory Spec2Isabelle
  imports Main
begin

section \<open>The timesheet bot: a shallow embedding of \<^verbatim>\<open>src/app.js\<close>\<close>

text \<open>
  \<^verbatim>\<open>src/app.js\<close> holds two near-identical scripts, one after the other. The first
  (lines 1-194) relays a parsed report; the second (lines 195-319) adds the weekly
  tracker, the Friday-only policy and the two scheduled jobs. Functions that are the
  same in both scripts (\<^verbatim>\<open>roundToNearestMinute\<close>, \<^verbatim>\<open>formatTimeMessage\<close>) are embedded
  once; the two that differ (\<^verbatim>\<open>parseTogglPdf\<close> and the message handler) are embedded
  twice, with the suffix 1 or 2 for the script they come from.

  Conventions of the embedding.
  \<^item> A JavaScript string is a \<^typ>\<open>string\<close>: one \<^typ>\<open>char\<close> per code unit, so the
    model covers the code units U+0000 to U+00FF.
  \<^item> A JavaScript number that the code computes with is a \<open>jsnum\<close>: an integer or
    \<^verbatim>\<open>NaN\<close> (what \<^verbatim>\<open>parseInt\<close> gives on a string with no digit). Integers are
    unbounded here; the program only ever sees values far below \<open>2^53\<close>.
  \<^item> A thrown \<^verbatim>\<open>Error\<close> is a value \<open>Error message\<close>; a function that can throw returns
    a sum with the error on the left.
  \<^item> The collaborators (Slack delivery, file download, \<^verbatim>\<open>pdf-parse\<close>, the clock and the
    environment variables) are the fields of a record \<open>world\<close>; every network call the
    handler makes is appended to a trace. \<^verbatim>\<open>console.log\<close> output is not modelled.
\<close>

subsection \<open>Characters and strings\<close>

text \<open>The white space of \<^verbatim>\<open>\s\<close> and of \<^verbatim>\<open>parseInt\<close>, within U+0000..U+00FF.\<close>

definition isSpace :: "char \<Rightarrow> bool" where
  "isSpace c = (c \<in> set [CHR 0x09, CHR 0x0A, CHR 0x0B, CHR 0x0C, CHR 0x0D, CHR 0x20, CHR 0xA0])"

text \<open>The digits of \<^verbatim>\<open>\d\<close>.\<close>

definition isDigit :: "char \<Rightarrow> bool" where
  "isDigit c = (c \<in> set ''0123456789'')"

text \<open>
  \<^verbatim>\<open>String.prototype.toLowerCase\<close>, one code unit at a time: A-Z and the Latin-1 capitals
  U+00C0..U+00DE (but not the multiplication sign U+00D7) move up by 32.
\<close>

definition toLowerCase_char :: "char \<Rightarrow> char" where
  "toLowerCase_char c =
     (let n = (of_char c :: nat)
      in if (65 \<le> n \<and> n \<le> 90) \<or> (192 \<le> n \<and> n \<le> 222 \<and> n \<noteq> 215)
         then char_of (n + 32) else c)"

definition toLowerCase :: "string \<Rightarrow> string" where
  "toLowerCase s = map toLowerCase_char s"

text \<open>
  The \<^verbatim>\<open>Canonicalize\<close> of a regular expression with the flag \<^verbatim>\<open>i\<close> (and without
  \<^verbatim>\<open>u\<close>): the upper-case code unit. The two code units of the range whose capital lies
  beyond U+00FF (U+00B5, U+00FF) and the sharp s stay as they are; a code unit above
  U+007F is never mapped to ASCII.
\<close>

definition canonicalize :: "char \<Rightarrow> char" where
  "canonicalize c =
     (let n = (of_char c :: nat)
      in if (97 \<le> n \<and> n \<le> 122) \<or> (224 \<le> n \<and> n \<le> 254 \<and> n \<noteq> 247)
         then char_of (n - 32) else c)"

text \<open>\<^verbatim>\<open>s.startsWith(p)\<close>, \<^verbatim>\<open>s.endsWith(p)\<close> and \<^verbatim>\<open>s.includes(p)\<close>.\<close>

definition startsWith :: "string \<Rightarrow> string \<Rightarrow> bool" where
  "startsWith s p = (take (length p) s = p)"

definition endsWith :: "string \<Rightarrow> string \<Rightarrow> bool" where
  "endsWith s p = (length p \<le> length s \<and> drop (length s - length p) s = p)"

fun js_includes :: "string \<Rightarrow> string \<Rightarrow> bool" where
  "js_includes [] p = (p = [])"
| "js_includes (c # cs) p = (startsWith (c # cs) p \<or> js_includes cs p)"

subsection \<open>Numbers\<close>

datatype jsnum = Num int | NaN

fun js_add :: "jsnum \<Rightarrow> jsnum \<Rightarrow> jsnum" where
  "js_add (Num a) (Num b) = Num (a + b)"
| "js_add _ _ = NaN"

fun js_mul :: "jsnum \<Rightarrow> jsnum \<Rightarrow> jsnum" where
  "js_mul (Num a) (Num b) = Num (a * b)"
| "js_mul _ _ = NaN"

text \<open>\<^verbatim>\<open>a >= b\<close> and \<^verbatim>\<open>a > b\<close>: false as soon as one side is \<^verbatim>\<open>NaN\<close>.\<close>

fun js_ge :: "jsnum \<Rightarrow> jsnum \<Rightarrow> bool" where
  "js_ge (Num a) (Num b) = (b \<le> a)"
| "js_ge _ _ = False"

fun js_gt :: "jsnum \<Rightarrow> jsnum \<Rightarrow> bool" where
  "js_gt (Num a) (Num b) = (b < a)"
| "js_gt _ _ = False"

text \<open>\<^verbatim>\<open>a !== b\<close>: true as soon as one side is \<^verbatim>\<open>NaN\<close>.\<close>

fun js_strict_neq :: "jsnum \<Rightarrow> jsnum \<Rightarrow> bool" where
  "js_strict_neq (Num a) (Num b) = (a \<noteq> b)"
| "js_strict_neq _ _ = True"

text \<open>\<^verbatim>\<open>Math.floor(a / 60)\<close>: the quotient rounded towards minus infinity.\<close>

fun floor_div_60 :: "jsnum \<Rightarrow> jsnum" where
  "floor_div_60 (Num a) = Num (a div 60)"
| "floor_div_60 NaN = NaN"

text \<open>\<^verbatim>\<open>a % 60\<close>: the remainder takes the sign of the dividend.\<close>

fun rem_60 :: "jsnum \<Rightarrow> jsnum" where
  "rem_60 (Num a) = Num (if 0 \<le> a then a mod 60 else - ((- a) mod 60))"
| "rem_60 NaN = NaN"

text \<open>The decimal digits of a natural number, and a number inside a template literal.\<close>

fun digits_of :: "nat \<Rightarrow> string" where
  "digits_of n =
     (if n < 10 then [''0123456789'' ! n]
      else digits_of (n div 10) @ [''0123456789'' ! (n mod 10)])"

declare digits_of.simps [simp del]

fun ToString :: "jsnum \<Rightarrow> string" where
  "ToString (Num a) = (if a < 0 then ''-'' @ digits_of (nat (- a)) else digits_of (nat a))"
| "ToString NaN = ''NaN''"

text \<open>
  \<^verbatim>\<open>parseInt(s, 10)\<close>: leading white space is skipped, a sign is read, then the longest
  run of digits; no digit gives \<^verbatim>\<open>NaN\<close>.
\<close>

definition digit_value :: "char \<Rightarrow> nat" where
  "digit_value c = of_char c - 48"

definition parseInt10 :: "string \<Rightarrow> jsnum" where
  "parseInt10 s =
     (let t = dropWhile isSpace s;
          neg = (t \<noteq> [] \<and> hd t = CHR ''-'');
          u = (if t \<noteq> [] \<and> (hd t = CHR ''-'' \<or> hd t = CHR ''+'') then tl t else t);
          ds = takeWhile isDigit u
      in if ds = [] then NaN
         else Num ((if neg then - 1 else 1) * int (foldl (\<lambda>acc c. 10 * acc + digit_value c) 0 ds)))"

subsection \<open>The regular expressions\<close>

text \<open>
  Every pattern of the program is a sequence of greedily quantified character classes,
  some of them inside a capture group. An item \<open>Rep p lo hi g\<close> is the class \<open>p\<close>
  repeated at least \<open>lo\<close> and at most \<open>hi\<close> times (\<open>None\<close>: no bound), inside the
  capture group \<open>g\<close> (0: outside every group).
\<close>

datatype item = Rep (cls: "char \<Rightarrow> bool") (lo: nat) (hi: "nat option") (grp: nat)

definition Lit :: "char \<Rightarrow> item" where
  "Lit c = Rep (\<lambda>x. x = c) 1 (Some 1) 0"

text \<open>A literal character under the flag \<^verbatim>\<open>i\<close>.\<close>

definition LitI :: "char \<Rightarrow> item" where
  "LitI c = Rep (\<lambda>x. canonicalize x = canonicalize c) 1 (Some 1) 0"

definition capture :: "nat \<Rightarrow> item list \<Rightarrow> item list" where
  "capture g its = map (\<lambda>it. Rep (cls it) (lo it) (hi it) g) its"

text \<open>
  The backtracking matcher. A greedy quantifier first takes as many characters as it
  can and gives them back one at a time while the rest of the pattern fails: the
  candidate counts of an item at a string, longest first.
\<close>

definition counts :: "item \<Rightarrow> string \<Rightarrow> nat list" where
  "counts it s =
     (let n = length (takeWhile (cls it) s);
          m = (case hi it of None \<Rightarrow> n | Some h \<Rightarrow> min h n)
      in rev [lo it ..< Suc m])"

fun firstSome :: "('a \<Rightarrow> 'b option) \<Rightarrow> 'a list \<Rightarrow> 'b option" where
  "firstSome f [] = None"
| "firstSome f (x # xs) = (case f x of Some y \<Rightarrow> Some y | None \<Rightarrow> firstSome f xs)"

text \<open>A match of the pattern at the start of the string: the piece each item took.\<close>

fun matchHere :: "item list \<Rightarrow> string \<Rightarrow> string list option" where
  "matchHere [] s = Some []"
| "matchHere (it # its) s =
     firstSome (\<lambda>k. map_option ((#) (take k s)) (matchHere its (drop k s))) (counts it s)"

text \<open>
  \<^verbatim>\<open>text.match(re)\<close> for a pattern without the flag \<^verbatim>\<open>g\<close>: the match at the leftmost
  start position that has one, \<open>None\<close> for \<^verbatim>\<open>null\<close>.
\<close>

fun str_match :: "item list \<Rightarrow> string \<Rightarrow> string list option" where
  "str_match re [] = matchHere re []"
| "str_match re (c # cs) =
     (case matchHere re (c # cs) of Some ps \<Rightarrow> Some ps | None \<Rightarrow> str_match re cs)"

text \<open>The text of capture group \<open>g\<close> of a match: \<^verbatim>\<open>m[g]\<close>.\<close>

definition group :: "item list \<Rightarrow> string list \<Rightarrow> nat \<Rightarrow> string" where
  "group re ps g = concat (map snd (filter (\<lambda>x. grp (fst x) = g) (zip re ps)))"

text \<open>\<^verbatim>\<open>(\d{1,3}):(\d{2}):(\d{2})\<close>, the end of both patterns for the total.\<close>

definition timestamp_re :: "item list" where
  "timestamp_re =
     capture 1 [Rep isDigit 1 (Some 3) 0] @ [LitI (CHR '':'')]
     @ capture 2 [Rep isDigit 2 (Some 2) 0] @ [LitI (CHR '':'')]
     @ capture 3 [Rep isDigit 2 (Some 2) 0]"

text \<open>\<^verbatim>\<open>/TOTAL HOURS:\s*(\d{1,3}):(\d{2}):(\d{2})/i\<close> (line 53).\<close>

definition totalHours_re1 :: "item list" where
  "totalHours_re1 = map LitI ''TOTAL HOURS:'' @ [Rep isSpace 0 None 0] @ timestamp_re"

text \<open>\<^verbatim>\<open>/TOTAL\s*HOURS[:\s]*(\d{1,3}):(\d{2}):(\d{2})/i\<close> (line 244).\<close>

definition totalHours_re2 :: "item list" where
  "totalHours_re2 =
     map LitI ''TOTAL'' @ [Rep isSpace 0 None 0] @ map LitI ''HOURS''
     @ [Rep (\<lambda>c. c = CHR '':'' \<or> isSpace c) 0 None 0] @ timestamp_re"

text \<open>\<^verbatim>\<open>\d{2}\/\d{2}\/\d{4}\<close>, and
  \<^verbatim>\<open>/(\d{2}\/\d{2}\/\d{4})\s*[-]\s*(\d{2}\/\d{2}\/\d{4})/\<close> (lines 64 and 249).\<close>

definition date_re :: "item list" where
  "date_re =
     [Rep isDigit 2 (Some 2) 0, Lit (CHR ''/''), Rep isDigit 2 (Some 2) 0, Lit (CHR ''/''),
      Rep isDigit 4 (Some 4) 0]"

definition dateRange_re :: "item list" where
  "dateRange_re =
     capture 1 date_re @ [Rep isSpace 0 None 0, Lit (CHR ''-''), Rep isSpace 0 None 0]
     @ capture 2 date_re"

subsection \<open>Parsing, rounding, formatting\<close>

datatype error = Error (message: string)

type_synonym buffer = "nat list"

text \<open>
  The object \<^verbatim>\<open>{ hours, minutes }\<close> that \<^verbatim>\<open>roundToNearestMinute\<close> returns, and the object
  \<^verbatim>\<open>{ hours, minutes, seconds, dateRange }\<close> that \<^verbatim>\<open>parseTogglPdf\<close> returns.
\<close>

record roundedTime =
  hours :: jsnum
  minutes :: jsnum

record timeData = roundedTime +
  seconds :: jsnum
  dateRange :: string

text \<open>
  \<^verbatim>\<open>parseTogglPdf\<close> of the first script (lines 48-70). \<open>pdf\<close> is the \<^verbatim>\<open>pdf-parse\<close>
  library: it throws, or gives the text of the document (\<^verbatim>\<open>data.text\<close>).
\<close>

definition parseTogglPdf1 :: "(buffer \<Rightarrow> error + string) \<Rightarrow> buffer \<Rightarrow> error + timeData" where
  "parseTogglPdf1 pdf pdfBuffer =
     (case pdf pdfBuffer of
        Inl err \<Rightarrow> Inl err
      | Inr text \<Rightarrow>
          (case str_match totalHours_re1 text of
             None \<Rightarrow> Inl (Error ''Could not find TOTAL HOURS in the PDF'')
           | Some totalHoursMatch \<Rightarrow>
               Inr \<lparr> hours = parseInt10 (group totalHours_re1 totalHoursMatch 1),
                     minutes = parseInt10 (group totalHours_re1 totalHoursMatch 2),
                     seconds = parseInt10 (group totalHours_re1 totalHoursMatch 3),
                     dateRange =
                       (case str_match dateRange_re text of
                          Some dateRangeMatch \<Rightarrow>
                            group dateRange_re dateRangeMatch 1 @ '' - ''
                            @ group dateRange_re dateRangeMatch 2
                        | None \<Rightarrow> ''this week'') \<rparr>))"

text \<open>\<^verbatim>\<open>parseTogglPdf\<close> of the second script (lines 241-252).\<close>

definition parseTogglPdf2 :: "(buffer \<Rightarrow> error + string) \<Rightarrow> buffer \<Rightarrow> error + timeData" where
  "parseTogglPdf2 pdf pdfBuffer =
     (case pdf pdfBuffer of
        Inl err \<Rightarrow> Inl err
      | Inr text \<Rightarrow>
          (case str_match totalHours_re2 text of
             None \<Rightarrow> Inl (Error ''Could not find TOTAL HOURS in the PDF'')
           | Some totalHoursMatch \<Rightarrow>
               Inr \<lparr> hours = parseInt10 (group totalHours_re2 totalHoursMatch 1),
                     minutes = parseInt10 (group totalHours_re2 totalHoursMatch 2),
                     seconds = parseInt10 (group totalHours_re2 totalHoursMatch 3),
                     dateRange =
                       (case str_match dateRange_re text of
                          Some dateRangeMatch \<Rightarrow>
                            group dateRange_re dateRangeMatch 1 @ '' - ''
                            @ group dateRange_re dateRangeMatch 2
                        | None \<Rightarrow> ''this week'') \<rparr>))"

text \<open>\<^verbatim>\<open>roundToNearestMinute\<close> (lines 75-87 and 254-258).\<close>

definition roundToNearestMinute :: "jsnum \<Rightarrow> jsnum \<Rightarrow> jsnum \<Rightarrow> roundedTime" where
  "roundToNearestMinute h m s =
     (let totalMinutes0 = js_add (js_mul h (Num 60)) m;
          totalMinutes = (if js_ge s (Num 30) then js_add totalMinutes0 (Num 1) else totalMinutes0)
      in \<lparr> hours = floor_div_60 totalMinutes, minutes = rem_60 totalMinutes \<rparr>)"

text \<open>
  \<^verbatim>\<open>formatTimeMessage\<close> (lines 92-108 and 260-267). \<open>timeStr\<close> is its local variable of
  that name, as it stands when the function returns.
\<close>

definition timeStr :: "roundedTime \<Rightarrow> string" where
  "timeStr roundedTime =
     (let h = hours roundedTime; m = minutes roundedTime;
          s1 = (if js_gt h (Num 0)
                then ToString h @ '' hour'' @ (if js_strict_neq h (Num 1) then ''s'' else [])
                else []);
          s2 = (if js_gt m (Num 0)
                then (if s1 \<noteq> [] then s1 @ '' '' else s1)
                     @ ToString m @ '' minute'' @ (if js_strict_neq m (Num 1) then ''s'' else [])
                else s1)
      in if s2 = [] then ''0 minutes'' else s2)"

definition formatTimeMessage :: "string \<Rightarrow> roundedTime \<Rightarrow> string \<Rightarrow> string" where
  "formatTimeMessage employeeName roundedTime dateRangeLabel =
     employeeName @ '''s time for week of '' @ dateRangeLabel @ '': *'' @ timeStr roundedTime @ ''*''"

subsection \<open>The collaborators and the state\<close>

text \<open>A file of a Slack message event, and the event as far as the handlers read it.\<close>

record slack_file =
  mimetype :: string
  name :: string
  url_private :: string

record event =
  files :: "slack_file list option"
  channel :: "string option"
  channel_type :: "string option"

text \<open>
  What lies outside the program when one event is handled: the environment variables
  (\<open>None\<close> when unset), the clock (\<^verbatim>\<open>new Date().getDay()\<close> and \<^verbatim>\<open>new Date()\<close>), the
  download of a file with the bot token, the \<^verbatim>\<open>pdf-parse\<close> library (its \<^verbatim>\<open>data.text\<close>), and
  \<^verbatim>\<open>client.chat.postMessage\<close>, whose outcome may depend on how many network calls came
  before it: \<open>None\<close> when the message is delivered, the error it throws otherwise.
\<close>

record world =
  EMPLOYEE_NAME :: "string option"
  HR_USER_ID :: "string option"
  ROXIE_USER_ID :: "string option"
  FRIDAY_ONLY :: "string option"
  SLACK_BOT_TOKEN :: "string option"
  getDay :: nat
  now :: int
  downloadFile :: "string \<Rightarrow> string option \<Rightarrow> error + buffer"
  pdf_parse :: "buffer \<Rightarrow> error + string"
  postMessage :: "nat \<Rightarrow> string option \<Rightarrow> string \<Rightarrow> error option"

text \<open>The network calls made so far, in order.\<close>

datatype effect = Download string | Post "string option" string

record net =
  trace :: "effect list"

text \<open>
  The state of the second script: the trace and the two module variables of the weekly
  tracker (lines 216-217).
\<close>

record state = net +
  timesheetReceivedThisWeek :: bool
  lastTimesheetDate :: "int option"

definition initial_state :: state where
  "initial_state = \<lparr> trace = [], timesheetReceivedThisWeek = False, lastTimesheetDate = None \<rparr>"

text \<open>A value that JavaScript takes for true: a string that is there and not empty.\<close>

definition truthy :: "string option \<Rightarrow> bool" where
  "truthy v = (case v of None \<Rightarrow> False | Some s \<Rightarrow> s \<noteq> [])"

text \<open>\<^verbatim>\<open>config.employeeName\<close>: \<^verbatim>\<open>process.env.EMPLOYEE_NAME || 'Roxie'\<close> (lines 14 and 205).\<close>

definition config_employeeName :: "world \<Rightarrow> string" where
  "config_employeeName w =
     (case EMPLOYEE_NAME w of None \<Rightarrow> ''Roxie'' | Some n \<Rightarrow> if n = [] then ''Roxie'' else n)"

text \<open>\<^verbatim>\<open>await client.chat.postMessage({ channel, text })\<close> and \<^verbatim>\<open>await downloadFile(url, token)\<close>.\<close>

definition chat_postMessage :: "world \<Rightarrow> string option \<Rightarrow> string \<Rightarrow> 'a net_scheme \<Rightarrow> error option \<times> 'a net_scheme" where
  "chat_postMessage w ch msg s = (postMessage w (length (trace s)) ch msg, s\<lparr> trace := trace s @ [Post ch msg] \<rparr>)"

definition download :: "world \<Rightarrow> string \<Rightarrow> 'a net_scheme \<Rightarrow> (error + buffer) \<times> 'a net_scheme" where
  "download w url s = (downloadFile w url (SLACK_BOT_TOKEN w), s\<lparr> trace := trace s @ [Download url] \<rparr>)"

subsection \<open>The weekly tracker and the scheduled jobs\<close>

text \<open>\<^verbatim>\<open>isFriday\<close> (line 219) and \<^verbatim>\<open>process.env.FRIDAY_ONLY !== 'false'\<close> (line 285).\<close>

definition isFriday :: "world \<Rightarrow> bool" where
  "isFriday w = (getDay w = 5)"

definition checkFridayOnly :: "world \<Rightarrow> bool" where
  "checkFridayOnly w = (FRIDAY_ONLY w \<noteq> Some ''false'')"

text \<open>\<^verbatim>\<open>resetWeeklyTracker\<close> (lines 223-227).\<close>

definition resetWeeklyTracker :: "state \<Rightarrow> state" where
  "resetWeeklyTracker s = s\<lparr> timesheetReceivedThisWeek := False, lastTimesheetDate := None \<rparr>"

text \<open>\<^verbatim>\<open>sendReminderToRoxie\<close> (lines 269-275): an error of the delivery is caught and logged.\<close>

definition sendReminderToRoxie :: "world \<Rightarrow> state \<Rightarrow> state" where
  "sendReminderToRoxie w s =
     (if \<not> truthy (ROXIE_USER_ID w) then s
      else snd (chat_postMessage w (ROXIE_USER_ID w)
                  ''Hi! Friendly reminder: Please send your weekly Toggl timesheet. Thanks!'' s))"

text \<open>The two cron jobs (lines 312-317): the Friday check and the Monday reset.\<close>

definition friday_check_job :: "world \<Rightarrow> state \<Rightarrow> state" where
  "friday_check_job w s = (if \<not> timesheetReceivedThisWeek s then sendReminderToRoxie w s else s)"

definition monday_reset_job :: "state \<Rightarrow> state" where
  "monday_reset_job s = resetWeeklyTracker s"

subsection \<open>The intake gate and the message handlers\<close>

text \<open>
  The predicate of \<^verbatim>\<open>event.files.find\<close> (lines 126-129 and 280), and \<^verbatim>\<open>isTogglExport\<close>
  (lines 136-138 and 282-283).
\<close>

definition isPdf :: "slack_file \<Rightarrow> bool" where
  "isPdf f = (mimetype f = ''application/pdf'' \<or> endsWith (toLowerCase (name f)) ''.pdf'')"

definition isTogglExport :: "slack_file \<Rightarrow> bool" where
  "isTogglExport pdfFile =
     (let fileName = toLowerCase (name pdfFile)
      in js_includes fileName ''toggl'' \<or> js_includes fileName ''track''
         \<or> js_includes fileName ''summary'')"



text \<open>The body of the \<^verbatim>\<open>try\<close> block of the second script (lines 278-300).\<close>

definition try_message2 :: "world \<Rightarrow> event \<Rightarrow> state \<Rightarrow> error option \<times> state" where
  "try_message2 w e s =
     (case files e of
        None \<Rightarrow> (None, s)
      | Some fs \<Rightarrow>
          if fs = [] then (None, s)
          else
            (case find isPdf fs of
               None \<Rightarrow> (None, s)
             | Some pdfFile \<Rightarrow>
                 if \<not> isTogglExport pdfFile then (None, s)
                 else if checkFridayOnly w \<and> \<not> isFriday w
                 then chat_postMessage w (channel e)
                        ''I received the timesheet, but I only process on Fridays!'' s
                 else
                   (case download w (url_private pdfFile) s of
                      (Inl err, s1) \<Rightarrow> (Some err, s1)
                    | (Inr pdfBuffer, s1) \<Rightarrow>
                        (case parseTogglPdf2 (pdf_parse w) pdfBuffer of
                           Inl err \<Rightarrow> (Some err, s1)
                         | Inr timeData \<Rightarrow>
                             let roundedTime = roundToNearestMinute (hours timeData)
                                   (minutes timeData) (seconds timeData);
                                 hrMessage = formatTimeMessage (config_employeeName w) roundedTime
                                   (dateRange timeData)
                             in (case chat_postMessage w (HR_USER_ID w) hrMessage s1 of
                                   (Some err, s2) \<Rightarrow> (Some err, s2)
                                 | (None, s2) \<Rightarrow>
                                     chat_postMessage w (channel e)
                                       (''I've forwarded '' @ config_employeeName w
                                        @ '''s time to Erickia:'' @ [CHR 0x0A] @ ''> '' @ hrMessage)
                                       (s2\<lparr> timesheetReceivedThisWeek := True,
                                            lastTimesheetDate := Some (now w) \<rparr>))))))"

text \<open>The handler of the second script with its \<^verbatim>\<open>catch\<close> block (lines 277-305).\<close>

definition message_handler2 :: "world \<Rightarrow> event \<Rightarrow> state \<Rightarrow> error option \<times> state" where
  "message_handler2 w e s =
     (case try_message2 w e s of
        (None, s') \<Rightarrow> (None, s')
      | (Some err, s') \<Rightarrow>
          if truthy (channel e)
          then chat_postMessage w (channel e) (''Error: '' @ message err) s'
          else (None, s'))"

subsection \<open>A world and an event for the examples\<close>

text \<open>
  A Friday on which every download and every delivery succeeds, no environment
  variable but the identifiers and the token is set, and \<^verbatim>\<open>pdf-parse\<close> extracts the given
  text; a direct message that carries the given files; the report file of the
  end-to-end scenario.
\<close>

definition scenario_world :: "string \<Rightarrow> world" where
  "scenario_world extracted =
     \<lparr> EMPLOYEE_NAME = None, HR_USER_ID = Some ''U_HR'', ROXIE_USER_ID = Some ''U_ROXIE'',
       FRIDAY_ONLY = None, SLACK_BOT_TOKEN = Some ''xoxb-token'', getDay = 5,
       now = 1704931200000,
       downloadFile = (\<lambda>url token. Inr [37, 80, 68, 70]),
       pdf_parse = (\<lambda>pdfBuffer. Inr extracted),
       postMessage = (\<lambda>n ch msg. None) \<rparr>"

definition scenario_event :: "slack_file list \<Rightarrow> event" where
  "scenario_event fs = \<lparr> files = Some fs, channel = Some ''D_MANAGER'', channel_type = Some ''im'' \<rparr>"

definition report_file :: slack_file where
  "report_file =
     \<lparr> mimetype = ''application/pdf'', name = ''Toggl_Summary_2024.pdf'',
       url_private = ''https://files.slack.com/Toggl_Summary_2024.pdf'' \<rparr>"

subsection \<open>The duration phrase in the words of the specification\<close>

text \<open>
  The duration phrase as section 4.3 of the specification words it, for a rounded
  duration of \<open>h\<close> hours and \<open>m\<close> minutes: a clause is left out when its quantity is 0,
  a unit is singular exactly when its quantity is 1, the hours clause comes first and a
  single space joins the two, and nothing at all is written as \<^verbatim>\<open>0 minutes\<close>.
\<close>

definition duration_phrase :: "int \<Rightarrow> int \<Rightarrow> string" where
  "duration_phrase h m =
     (let hours_clause = ToString (Num h) @ '' '' @ (if h = 1 then ''hour'' else ''hours'');
          minutes_clause = ToString (Num m) @ '' '' @ (if m = 1 then ''minute'' else ''minutes'')
      in if h = 0 \<and> m = 0 then ''0 minutes''
         else if m = 0 then hours_clause
         else if h = 0 then minutes_clause
         else hours_clause @ '' '' @ minutes_clause)"

subsection \<open>The patterns in the words of the specification\<close>

text \<open>A string fits an item when every character is in the class and the length is within the bounds of the quantifier.\<close>

definition fits :: "item \<Rightarrow> string \<Rightarrow> bool" where
  "fits it w = (list_all (cls it) w \<and> lo it \<le> length w
                 \<and> (case hi it of None \<Rightarrow> True | Some h \<Rightarrow> length w \<le> h))"

text \<open>The strings a pattern matches as a whole: one fitting piece for each item, in order.\<close>

definition words :: "item list \<Rightarrow> string \<Rightarrow> bool" where
  "words re w = (\<exists>ps. list_all2 fits re ps \<and> concat ps = w)"

text \<open>Some substring of the text is in the language \<open>L\<close>.\<close>

definition occurs :: "(string \<Rightarrow> bool) \<Rightarrow> string \<Rightarrow> bool" where
  "occurs L t = (\<exists>pre w post. t = pre @ w @ post \<and> L w)"

text \<open>A timestamp \<^verbatim>\<open>H:MM:SS\<close> as the specification describes it: hours of 1 to 3 digits, minutes and seconds of exactly 2 digits each.\<close>

definition timestamp :: "string \<Rightarrow> bool" where
  "timestamp w =
     (\<exists>h m s. w = h @ '':'' @ m @ '':'' @ s
        \<and> list_all isDigit h \<and> 1 \<le> length h \<and> length h \<le> 3
        \<and> list_all isDigit m \<and> length m = 2
        \<and> list_all isDigit s \<and> length s = 2)"

text \<open>Two strings that differ in the case of their letters only.\<close>

definition same_ignoring_case :: "string \<Rightarrow> string \<Rightarrow> bool" where
  "same_ignoring_case a b = (map canonicalize a = map canonicalize b)"

text \<open>The total-duration marker followed by a timestamp, as the first script reads it: the label \<^verbatim>\<open>TOTAL HOURS:\<close> in any case, then any white space, then the timestamp.\<close>

definition total_line1 :: "string \<Rightarrow> bool" where
  "total_line1 w =
     (\<exists>marker ws ts. w = marker @ ws @ ts
        \<and> same_ignoring_case marker ''TOTAL HOURS:'' \<and> list_all isSpace ws \<and> timestamp ts)"

text \<open>The same for the second script: \<^verbatim>\<open>TOTAL\<close> and \<^verbatim>\<open>HOURS\<close> in any case with any white space between them, then any run of colons and white space, then the timestamp.\<close>

definition total_line2 :: "string \<Rightarrow> bool" where
  "total_line2 w =
     (\<exists>total ws hrs sep ts. w = total @ ws @ hrs @ sep @ ts
        \<and> same_ignoring_case total ''TOTAL'' \<and> list_all isSpace ws
        \<and> same_ignoring_case hrs ''HOURS''
        \<and> list_all (\<lambda>c. c = CHR '':'' \<or> isSpace c) sep \<and> timestamp ts)"

text \<open>A date \<^verbatim>\<open>MM/DD/YYYY\<close>.\<close>

definition date_form :: "string \<Rightarrow> bool" where
  "date_form w =
     (\<exists>mm dd yyyy. w = mm @ ''/'' @ dd @ ''/'' @ yyyy
        \<and> list_all isDigit mm \<and> length mm = 2 \<and> list_all isDigit dd \<and> length dd = 2
        \<and> list_all isDigit yyyy \<and> length yyyy = 4)"

text \<open>The date-range pattern: two dates with a hyphen between them and any white space on either side of the hyphen.\<close>

definition date_range :: "string \<Rightarrow> bool" where
  "date_range w =
     (\<exists>d1 ws1 ws2 d2. w = d1 @ ws1 @ ''-'' @ ws2 @ d2
        \<and> date_form d1 \<and> list_all isSpace ws1 \<and> list_all isSpace ws2 \<and> date_form d2)"

text \<open>No substring of the text that is in \<open>L\<close> begins before the end of the prefix \<open>pre\<close>.\<close>

definition none_before :: "(string \<Rightarrow> bool) \<Rightarrow> string \<Rightarrow> string \<Rightarrow> bool" where
  "none_before L pre t = (\<forall>pre' w post'. t = pre' @ w @ post' \<and> L w \<longrightarrow> length pre \<le> length pre')"

subsection \<open>A successful relay\<close>

text \<open>
  The event is relayed with the summary \<open>hrMessage\<close>: it passes the intake gate on a
  permitted day, the download, the text extraction and the parse succeed, the summary
  is the formatted rounded total, and its delivery to the HR recipient succeeds.
\<close>

definition relayed_by :: "world \<Rightarrow> event \<Rightarrow> state \<Rightarrow> string \<Rightarrow> bool" where
  "relayed_by w e s hrMessage =
     (\<exists>fs f pdfBuffer timeData.
         files e = Some fs \<and> find isPdf fs = Some f \<and> isTogglExport f
       \<and> \<not> (checkFridayOnly w \<and> \<not> isFriday w)
       \<and> downloadFile w (url_private f) (SLACK_BOT_TOKEN w) = Inr pdfBuffer
       \<and> parseTogglPdf2 (pdf_parse w) pdfBuffer = Inr timeData
       \<and> hrMessage = formatTimeMessage (config_employeeName w)
            (roundToNearestMinute (hours timeData) (minutes timeData) (seconds timeData))
            (dateRange timeData)
       \<and> postMessage w (Suc (length (trace s))) (HR_USER_ID w) hrMessage = None)"

section \<open>Rounding\<close>

text \<open>
  C1. For a raw duration with hours in [0,999] and minutes and seconds in [0,59],
  \<^verbatim>\<open>roundToNearestMinute\<close> returns \<open>(T div 60, T mod 60)\<close> for
  \<open>T = hours * 60 + minutes + (1 if seconds \<ge> 30 else 0)\<close>: seconds up to 29 leave the
  minute total as it is, seconds from 30 add one minute, the minutes returned lie in
  [0,59], and the rounding carries into the hours (0h 59m 30s gives 1h 0m).
\<close>

theorem roundToNearestMinute_correct:
  assumes "0 \<le> h" and "h \<le> 999" and "0 \<le> m" and "m \<le> 59" and "0 \<le> s" and "s \<le> 59"
  shows "roundToNearestMinute (Num h) (Num m) (Num s)
           = \<lparr> hours = Num ((h * 60 + m + (if 30 \<le> s then 1 else 0)) div 60),
               minutes = Num ((h * 60 + m + (if 30 \<le> s then 1 else 0)) mod 60) \<rparr>
         \<and> (\<exists>h' m'. roundToNearestMinute (Num h) (Num m) (Num s) = \<lparr> hours = Num h', minutes = Num m' \<rparr>
               \<and> 0 \<le> h' \<and> 0 \<le> m' \<and> m' \<le> 59
               \<and> h' * 60 + m' = (if s \<le> 29 then h * 60 + m else h * 60 + m + 1))
         \<and> roundToNearestMinute (Num 0) (Num 59) (Num 30) = \<lparr> hours = Num 1, minutes = Num 0 \<rparr>"
proof -
  define T where "T = h * 60 + m + (if 30 \<le> s then 1 else 0)"
  have T0: "0 \<le> T"
    using assms by (simp add: T_def)
  have r: "roundToNearestMinute (Num h) (Num m) (Num s) = \<lparr> hours = Num (T div 60), minutes = Num (T mod 60) \<rparr>"
    using T0 by (auto simp: roundToNearestMinute_def Let_def T_def)
  have total: "(T div 60) * 60 + T mod 60 = (if s \<le> 29 then h * 60 + m else h * 60 + m + 1)"
    by (simp add: T_def)
  have bounds: "0 \<le> T div 60" "0 \<le> T mod 60" "T mod 60 \<le> 59"
    using T0 by simp_all
  have ex: "roundToNearestMinute (Num 0) (Num 59) (Num 30) = \<lparr> hours = Num 1, minutes = Num 0 \<rparr>"
    by (simp add: roundToNearestMinute_def Let_def)
  show ?thesis
    using r total bounds ex unfolding T_def by blast
qed

text \<open>The theorem of C1 at 37:15:45, at the largest raw duration 999:59:59 and at 5:45:29.\<close>

theorem roundToNearestMinute_correct_witness:
  "roundToNearestMinute (Num 37) (Num 15) (Num 45) = \<lparr> hours = Num 37, minutes = Num 16 \<rparr>
   \<and> roundToNearestMinute (Num 999) (Num 59) (Num 59) = \<lparr> hours = Num 1000, minutes = Num 0 \<rparr>
   \<and> roundToNearestMinute (Num 5) (Num 45) (Num 29) = \<lparr> hours = Num 5, minutes = Num 45 \<rparr>"
  using roundToNearestMinute_correct [of 37 15 45] roundToNearestMinute_correct [of 999 59 59]
    roundToNearestMinute_correct [of 5 45 29]
  by simp

section \<open>Formatting\<close>

lemma timeStr_eq_duration_phrase:
  assumes "0 \<le> h" and "0 \<le> m"
  shows "timeStr \<lparr> hours = Num h, minutes = Num m \<rparr> = duration_phrase h m"
proof -
  have pos: "0 < h \<longleftrightarrow> h \<noteq> 0" "0 < m \<longleftrightarrow> m \<noteq> 0"
    using assms by auto
  show ?thesis
    by (simp add: timeStr_def duration_phrase_def Let_def pos)
qed

text \<open>
  C4. For every rounded duration (hours at least 0, minutes in [0,59]) the phrase that
  \<^verbatim>\<open>formatTimeMessage\<close> builds is the phrase of the specification: no hours clause
  when hours = 0, no minutes clause when minutes = 0, a singular unit exactly for the
  quantity 1, the hours clause first with a single space between the two, and
  \<^verbatim>\<open>0 minutes\<close> when both are 0. The five examples of the specification follow.
\<close>

theorem timeStr_is_duration_phrase:
  assumes "0 \<le> h" and "0 \<le> m" and "m \<le> 59"
  shows "timeStr \<lparr> hours = Num h, minutes = Num m \<rparr> = duration_phrase h m
         \<and> timeStr \<lparr> hours = Num 0, minutes = Num 0 \<rparr> = ''0 minutes''
         \<and> timeStr \<lparr> hours = Num 1, minutes = Num 0 \<rparr> = ''1 hour''
         \<and> timeStr \<lparr> hours = Num 2, minutes = Num 0 \<rparr> = ''2 hours''
         \<and> timeStr \<lparr> hours = Num 0, minutes = Num 1 \<rparr> = ''1 minute''
         \<and> timeStr \<lparr> hours = Num 1, minutes = Num 1 \<rparr> = ''1 hour 1 minute''"
proof -
  have general: "timeStr \<lparr> hours = Num h, minutes = Num m \<rparr> = duration_phrase h m"
    using assms by (simp add: timeStr_eq_duration_phrase)
  have examples:
    "timeStr \<lparr> hours = Num 0, minutes = Num 0 \<rparr> = ''0 minutes''"
    "timeStr \<lparr> hours = Num 1, minutes = Num 0 \<rparr> = ''1 hour''"
    "timeStr \<lparr> hours = Num 2, minutes = Num 0 \<rparr> = ''2 hours''"
    "timeStr \<lparr> hours = Num 0, minutes = Num 1 \<rparr> = ''1 minute''"
    "timeStr \<lparr> hours = Num 1, minutes = Num 1 \<rparr> = ''1 hour 1 minute''"
    by (simp_all add: timeStr_def Let_def digits_of.simps)
  from general examples show ?thesis by simp
qed

text \<open>The theorem of C4 at 2h 1m, 1h 2m and 120h 59m.\<close>

theorem timeStr_is_duration_phrase_witness:
  "timeStr \<lparr> hours = Num 2, minutes = Num 1 \<rparr> = ''2 hours 1 minute''
   \<and> timeStr \<lparr> hours = Num 1, minutes = Num 2 \<rparr> = ''1 hour 2 minutes''
   \<and> timeStr \<lparr> hours = Num 120, minutes = Num 59 \<rparr> = ''120 hours 59 minutes''"
  using timeStr_is_duration_phrase [of 2 1] timeStr_is_duration_phrase [of 1 2]
    timeStr_is_duration_phrase [of 120 59]
  by (simp add: duration_phrase_def digits_of.simps)

text \<open>
  C5, as the claim states it, fails: the message does not end with the bare phrase,
  the code puts the phrase between two asterisks (Slack's bold).
\<close>

theorem formatTimeMessage_bare_phrase_counterexample:
  "formatTimeMessage ''Roxie'' \<lparr> hours = Num 1, minutes = Num 0 \<rparr> ''this week''
     = ''Roxie's time for week of this week: *1 hour*''
   \<and> formatTimeMessage ''Roxie'' \<lparr> hours = Num 1, minutes = Num 0 \<rparr> ''this week''
     \<noteq> ''Roxie'' @ '''s time for week of '' @ ''this week'' @ '': ''
         @ timeStr \<lparr> hours = Num 1, minutes = Num 0 \<rparr>"
  by (simp add: formatTimeMessage_def timeStr_def Let_def digits_of.simps)

text \<open>
  C5, amended. For every employee name, rounded duration and date-range label,
  \<^verbatim>\<open>formatTimeMessage\<close> returns exactly the name, \<^verbatim>\<open>'s time for week of \<close>, the label, a
  colon and a space, and then the duration phrase of the formatter contract between
  two asterisks.
\<close>

theorem formatTimeMessage_format:
  assumes "0 \<le> h" and "0 \<le> m" and "m \<le> 59"
  shows "formatTimeMessage employee \<lparr> hours = Num h, minutes = Num m \<rparr> label
           = employee @ '''s time for week of '' @ label @ '': '' @ ''*'' @ duration_phrase h m @ ''*''"
  using assms by (simp add: formatTimeMessage_def timeStr_eq_duration_phrase)

text \<open>The theorem of C5 at the rounded total of the parser example.\<close>

theorem formatTimeMessage_format_witness:
  "formatTimeMessage ''Roxie'' \<lparr> hours = Num 37, minutes = Num 16 \<rparr> ''01/05/2024 - 01/11/2024''
     = ''Roxie's time for week of 01/05/2024 - 01/11/2024: *37 hours 16 minutes*''"
  using formatTimeMessage_format [of 37 16 "''Roxie''" "''01/05/2024 - 01/11/2024''"]
  by (simp add: duration_phrase_def digits_of.simps)

section \<open>The matcher and the words of a pattern\<close>

text \<open>
  The backtracking matcher finds a match exactly where the pattern has a word: it is
  sound and complete for the declarative reading of the patterns.
\<close>

lemma firstSome_None: "firstSome f xs = None \<longleftrightarrow> (\<forall>x\<in>set xs. f x = None)"
  by (induction xs) (auto split: option.splits)

lemma firstSome_Some: "firstSome f xs = Some y \<Longrightarrow> \<exists>x\<in>set xs. f x = Some y"
  by (induction xs) (auto split: option.splits)

lemma firstSome_SomeE:
  assumes "firstSome f xs = Some y"
  obtains x where "x \<in> set xs" and "f x = Some y"
  using firstSome_Some [OF assms] by blast

lemma set_counts:
  "set (counts it s) = {k. lo it \<le> k \<and> k \<le> length (takeWhile (cls it) s)
                           \<and> (case hi it of None \<Rightarrow> True | Some h \<Rightarrow> k \<le> h)}"
  by (auto simp: counts_def Let_def split: option.splits)

lemma le_takeWhile_iff:
  "k \<le> length (takeWhile p s) \<longleftrightarrow> k \<le> length s \<and> list_all p (take k s)"
proof (induction s arbitrary: k)
  case Nil
  then show ?case by simp
next
  case (Cons c s)
  then show ?case by (cases k) auto
qed

lemma in_counts:
  "k \<in> set (counts it s) \<longleftrightarrow> k \<le> length s \<and> fits it (take k s)"
  by (auto simp: set_counts fits_def le_takeWhile_iff min_def split: option.splits)

lemma matchHere_sound:
  "matchHere re s = Some ps \<Longrightarrow> list_all2 fits re ps \<and> (\<exists>rest. s = concat ps @ rest)"
proof (induction re arbitrary: s ps)
  case Nil
  then show ?case by simp
next
  case (Cons it its)
  from Cons.prems
  have "firstSome (\<lambda>k. map_option ((#) (take k s)) (matchHere its (drop k s))) (counts it s) = Some ps"
    by simp
  then obtain k where k: "k \<in> set (counts it s)"
    and m: "map_option ((#) (take k s)) (matchHere its (drop k s)) = Some ps"
    by (rule firstSome_SomeE)
  from m obtain qs where qs: "matchHere its (drop k s) = Some qs" and ps: "ps = take k s # qs"
    by auto
  from Cons.IH [OF qs] obtain rest where a: "list_all2 fits its qs" and r: "drop k s = concat qs @ rest"
    by auto
  from k have f: "fits it (take k s)" by (simp add: in_counts)
  have "concat ps @ rest = take k s @ drop k s"
    by (simp add: ps r)
  then have s: "s = concat ps @ rest" by simp
  have "list_all2 fits (it # its) ps"
    using a f by (simp add: ps)
  moreover from s have "\<exists>rest. s = concat ps @ rest" by (rule exI)
  ultimately show ?case by (rule conjI)
qed

lemma matchHere_complete:
  "list_all2 fits re ps \<Longrightarrow> matchHere re (concat ps @ rest) \<noteq> None"
proof (induction re arbitrary: ps)
  case Nil
  then show ?case by simp
next
  case (Cons it its)
  from Cons.prems obtain p qs where ps: "ps = p # qs" and f: "fits it p" and a: "list_all2 fits its qs"
    by (auto simp: list_all2_Cons1)
  let ?s = "concat ps @ rest"
  have k: "length p \<in> set (counts it ?s)"
    using f by (simp add: in_counts ps)
  have "matchHere its (drop (length p) ?s) \<noteq> None"
    using Cons.IH [OF a] by (simp add: ps)
  then have "map_option ((#) (take (length p) ?s)) (matchHere its (drop (length p) ?s)) \<noteq> None"
    by simp
  with k show ?case
    by (auto simp: firstSome_None simp del: map_option_is_None)
qed

lemma matchHere_iff: "matchHere re s \<noteq> None \<longleftrightarrow> (\<exists>w rest. s = w @ rest \<and> words re w)"
proof
  assume "matchHere re s \<noteq> None"
  then obtain ps where "matchHere re s = Some ps" by auto
  from matchHere_sound [OF this] show "\<exists>w rest. s = w @ rest \<and> words re w"
    by (auto simp: words_def)
next
  assume "\<exists>w rest. s = w @ rest \<and> words re w"
  then show "matchHere re s \<noteq> None"
    by (auto simp: words_def dest: matchHere_complete)
qed

lemma all_le_Suc: "(\<forall>k\<le>Suc n. Q k) \<longleftrightarrow> Q 0 \<and> (\<forall>k\<le>n. Q (Suc k))"
proof
  assume "\<forall>k\<le>Suc n. Q k"
  then show "Q 0 \<and> (\<forall>k\<le>n. Q (Suc k))" by simp
next
  assume a: "Q 0 \<and> (\<forall>k\<le>n. Q (Suc k))"
  show "\<forall>k\<le>Suc n. Q k"
  proof (intro allI impI)
    fix k assume "k \<le> Suc n"
    with a show "Q k" by (cases k) simp_all
  qed
qed

lemma str_match_None: "str_match re s = None \<longleftrightarrow> (\<forall>k\<le>length s. matchHere re (drop k s) = None)"
proof (induction s)
  case Nil
  then show ?case by simp
next
  case (Cons c s)
  show ?case
    by (simp add: all_le_Suc Cons split: option.splits)
qed

lemma str_match_iff: "str_match re s \<noteq> None \<longleftrightarrow> occurs (words re) s"
proof -
  have "occurs (words re) s \<longleftrightarrow> (\<exists>k\<le>length s. matchHere re (drop k s) \<noteq> None)"
  proof
    assume "occurs (words re) s"
    then obtain pre w post where s: "s = pre @ w @ post" and w: "words re w"
      by (auto simp: occurs_def)
    have "matchHere re (drop (length pre) s) \<noteq> None"
      using w by (subst matchHere_iff) (auto simp: s)
    moreover have "length pre \<le> length s" by (simp add: s)
    ultimately show "\<exists>k\<le>length s. matchHere re (drop k s) \<noteq> None" by blast
  next
    assume "\<exists>k\<le>length s. matchHere re (drop k s) \<noteq> None"
    then obtain k where "matchHere re (drop k s) \<noteq> None" by blast
    then obtain w rest where "drop k s = w @ rest" and w: "words re w"
      using matchHere_iff [of re "drop k s"] by blast
    then have "s = take k s @ w @ rest"
      by (metis append_take_drop_id)
    with w show "occurs (words re) s"
      by (auto simp: occurs_def)
  qed
  then show ?thesis
    using str_match_None [of re s] by auto
qed

lemma words_Nil [simp]: "words [] w \<longleftrightarrow> w = []"
  by (auto simp: words_def)

lemma words_Cons: "words (it # its) w \<longleftrightarrow> (\<exists>a b. w = a @ b \<and> fits it a \<and> words its b)"
proof
  assume "words (it # its) w"
  then obtain ps where "list_all2 fits (it # its) ps" and w: "concat ps = w"
    by (auto simp: words_def)
  then obtain p qs where "ps = p # qs" "fits it p" "list_all2 fits its qs"
    by (auto simp: list_all2_Cons1)
  with w show "\<exists>a b. w = a @ b \<and> fits it a \<and> words its b"
    by (auto simp: words_def)
next
  assume "\<exists>a b. w = a @ b \<and> fits it a \<and> words its b"
  then obtain a b qs where "w = a @ b" "fits it a" "list_all2 fits its qs" "concat qs = b"
    by (auto simp: words_def)
  then have "list_all2 fits (it # its) (a # qs) \<and> concat (a # qs) = w"
    by simp
  then show "words (it # its) w"
    unfolding words_def by blast
qed

lemma words_single: "words [it] w \<longleftrightarrow> fits it w"
  by (simp add: words_Cons)

lemma words_append: "words (xs @ ys) w \<longleftrightarrow> (\<exists>a b. w = a @ b \<and> words xs a \<and> words ys b)"
proof (induction xs arbitrary: w)
  case Nil
  then show ?case by simp
next
  case (Cons it xs)
  show ?case
  proof
    assume "words ((it # xs) @ ys) w"
    then obtain a b where "w = a @ b" "fits it a" "words (xs @ ys) b"
      by (auto simp: words_Cons)
    moreover then obtain c d where "b = c @ d" "words xs c" "words ys d"
      by (auto simp: Cons.IH)
    ultimately have "w = (a @ c) @ d \<and> words (it # xs) (a @ c) \<and> words ys d"
      by (auto simp: words_Cons)
    then show "\<exists>a b. w = a @ b \<and> words (it # xs) a \<and> words ys b"
      by blast
  next
    assume "\<exists>a b. w = a @ b \<and> words (it # xs) a \<and> words ys b"
    then obtain a b where w: "w = a @ b" and a: "words (it # xs) a" and b: "words ys b"
      by blast
    from a obtain c d where "a = c @ d" "fits it c" "words xs d"
      by (auto simp: words_Cons)
    with w b have "w = c @ (d @ b) \<and> fits it c \<and> words (xs @ ys) (d @ b)"
      by (auto simp: Cons.IH)
    then show "words ((it # xs) @ ys) w"
      by (auto simp: words_Cons)
  qed
qed

lemma fits_capture: "fits (Rep (cls it) (lo it) (hi it) g) = fits it"
  by (rule ext) (simp add: fits_def)

lemma words_capture [simp]: "words (capture g its) w = words its w"
  by (simp add: words_def capture_def list_all2_map1 fits_capture)

lemma fits_exact: "fits (Rep p n (Some n) g) w \<longleftrightarrow> list_all p w \<and> length w = n"
  by (auto simp: fits_def)

lemma fits_star: "fits (Rep p 0 None g) w \<longleftrightarrow> list_all p w"
  by (auto simp: fits_def)

lemma fits_range: "fits (Rep p a (Some b) g) w \<longleftrightarrow> list_all p w \<and> a \<le> length w \<and> length w \<le> b"
  by (auto simp: fits_def)

lemma fits_Lit: "fits (Lit c) w \<longleftrightarrow> w = [c]"
  by (cases w) (auto simp: fits_def Lit_def)

lemma fits_LitI: "fits (LitI c) w \<longleftrightarrow> (\<exists>x. w = [x] \<and> canonicalize x = canonicalize c)"
  by (cases w) (auto simp: fits_def LitI_def)

lemma words_LitI_Cons:
  "words (LitI c # its) w \<longleftrightarrow> (\<exists>x b. w = x # b \<and> canonicalize x = canonicalize c \<and> words its b)"
proof
  assume "words (LitI c # its) w"
  then obtain a b where "w = a @ b" "fits (LitI c) a" "words its b"
    by (auto simp: words_Cons)
  moreover then obtain x where "a = [x]" "canonicalize x = canonicalize c"
    by (auto simp: fits_LitI)
  ultimately show "\<exists>x b. w = x # b \<and> canonicalize x = canonicalize c \<and> words its b"
    by simp
next
  assume "\<exists>x b. w = x # b \<and> canonicalize x = canonicalize c \<and> words its b"
  then obtain x b where "w = [x] @ b" "fits (LitI c) [x]" "words its b"
    by (auto simp: fits_LitI)
  then show "words (LitI c # its) w"
    unfolding words_Cons by blast
qed

lemma words_LitI: "words (map LitI cs) w \<longleftrightarrow> same_ignoring_case w cs"
proof (induction cs arbitrary: w)
  case Nil
  then show ?case by (simp add: same_ignoring_case_def)
next
  case (Cons c cs)
  show ?case
    by (cases w) (auto simp: words_LitI_Cons Cons.IH same_ignoring_case_def)
qed

lemma of_char_canonicalize:
  "(of_char (canonicalize x) :: nat) =
     (if (97 \<le> (of_char x :: nat) \<and> (of_char x :: nat) \<le> 122)
         \<or> (224 \<le> (of_char x :: nat) \<and> (of_char x :: nat) \<le> 254 \<and> (of_char x :: nat) \<noteq> 247)
      then of_char x - 32 else of_char x)"
proof -
  have "(of_char x :: nat) < 256" by simp
  then have "(of_char x - 32 :: nat) < 256"
    by (rule less_imp_diff_less)
  then have "(of_char x - 32 :: nat) mod 256 = of_char x - 32"
    by (rule mod_less)
  then show ?thesis
    by (simp add: canonicalize_def Let_def)
qed

lemma canonicalize_colon: "canonicalize x = canonicalize (CHR '':'') \<longleftrightarrow> x = CHR '':''"
proof -
  have "canonicalize x = canonicalize (CHR '':'') \<longleftrightarrow> (of_char (canonicalize x) :: nat) = of_char (canonicalize (CHR '':''))"
    by simp
  also have "\<dots> \<longleftrightarrow> (of_char x :: nat) = of_char (CHR '':'')"
    unfolding of_char_canonicalize by (auto split: if_splits)
  also have "\<dots> \<longleftrightarrow> x = CHR '':''"
    by (rule of_char_eq_iff)
  finally show ?thesis .
qed

lemma words_Cons_Rep:
  "words (Rep p a b g # its) w \<longleftrightarrow> (\<exists>u v. w = u @ v \<and> fits (Rep p a b g) u \<and> words its v)"
  by (rule words_Cons)

lemma words_timestamp: "words timestamp_re w \<longleftrightarrow> timestamp w"
proof -
  have eq2: "(2 \<le> length u \<and> length u \<le> 2) = (length u = 2)" for u :: string
    by auto
  show ?thesis
    unfolding timestamp_def
    by (simp add: timestamp_re_def capture_def words_Cons_Rep words_LitI_Cons fits_range fits_exact
        canonicalize_colon eq2 conj_assoc) blast
qed

lemma words_total_line1: "words totalHours_re1 w \<longleftrightarrow> total_line1 w"
  unfolding total_line1_def totalHours_re1_def
  by (simp only: words_append words_LitI words_single fits_star words_timestamp) blast

lemma words_total_line2: "words totalHours_re2 w \<longleftrightarrow> total_line2 w"
  unfolding total_line2_def totalHours_re2_def
  by (simp only: words_append words_LitI words_single fits_star words_timestamp) blast

lemma words_date_re: "words date_re w \<longleftrightarrow> date_form w"
proof -
  have eq: "(n \<le> length u \<and> length u \<le> n) = (length u = n)" for u :: string and n
    by auto
  show ?thesis
    unfolding date_form_def
    by (simp add: date_re_def words_Cons_Rep words_Cons fits_Lit fits_range fits_exact eq) blast
qed

lemma words_date_range: "words dateRange_re w \<longleftrightarrow> date_range w"
  unfolding date_range_def dateRange_re_def
  by (simp add: words_append words_Cons fits_Lit words_single fits_star words_date_re) blast

lemma ci_letter:
  assumes P: "(of_char P :: nat) = u" and p: "(of_char p :: nat) = u + 32" and u: "65 \<le> u" "u \<le> 90"
  shows "canonicalize x = canonicalize P \<longleftrightarrow> x = P \<or> x = p"
proof -
  let ?n = "of_char x :: nat"
  have cP: "(of_char (canonicalize P) :: nat) = u"
    using P u by (simp add: of_char_canonicalize)
  have "canonicalize x = canonicalize P \<longleftrightarrow> (of_char (canonicalize x) :: nat) = of_char (canonicalize P)"
    by simp
  also have "\<dots> \<longleftrightarrow> (of_char (canonicalize x) :: nat) = u"
    by (simp only: cP)
  also have "\<dots> \<longleftrightarrow> ?n = u \<or> ?n = u + 32"
    unfolding of_char_canonicalize using u by (auto split: if_splits)
  also have "\<dots> \<longleftrightarrow> (of_char x :: nat) = of_char P \<or> (of_char x :: nat) = of_char p"
    by (simp add: P p)
  also have "\<dots> \<longleftrightarrow> x = P \<or> x = p"
    by (simp only: of_char_eq_iff)
  finally show ?thesis .
qed

lemma ci_other:
  assumes c: "(of_char c :: nat) < 65"
  shows "canonicalize x = canonicalize c \<longleftrightarrow> x = c"
proof -
  let ?n = "of_char x :: nat"
  have cc: "(of_char (canonicalize c) :: nat) = of_char c"
    using c by (simp add: of_char_canonicalize)
  have "canonicalize x = canonicalize c \<longleftrightarrow> (of_char (canonicalize x) :: nat) = of_char (canonicalize c)"
    by simp
  also have "\<dots> \<longleftrightarrow> (of_char (canonicalize x) :: nat) = of_char c"
    by (simp only: cc)
  also have "\<dots> \<longleftrightarrow> ?n = of_char c"
    unfolding of_char_canonicalize using c by (auto split: if_splits)
  also have "\<dots> \<longleftrightarrow> x = c"
    by (simp only: of_char_eq_iff)
  finally show ?thesis .
qed

lemma ci_chars:
  "canonicalize x = canonicalize (CHR ''T'') \<longleftrightarrow> x = CHR ''T'' \<or> x = CHR ''t''"
  "canonicalize x = canonicalize (CHR ''O'') \<longleftrightarrow> x = CHR ''O'' \<or> x = CHR ''o''"
  "canonicalize x = canonicalize (CHR ''A'') \<longleftrightarrow> x = CHR ''A'' \<or> x = CHR ''a''"
  "canonicalize x = canonicalize (CHR ''L'') \<longleftrightarrow> x = CHR ''L'' \<or> x = CHR ''l''"
  "canonicalize x = canonicalize (CHR ''H'') \<longleftrightarrow> x = CHR ''H'' \<or> x = CHR ''h''"
  "canonicalize x = canonicalize (CHR ''U'') \<longleftrightarrow> x = CHR ''U'' \<or> x = CHR ''u''"
  "canonicalize x = canonicalize (CHR ''R'') \<longleftrightarrow> x = CHR ''R'' \<or> x = CHR ''r''"
  "canonicalize x = canonicalize (CHR ''S'') \<longleftrightarrow> x = CHR ''S'' \<or> x = CHR ''s''"
  "canonicalize x = canonicalize (CHR '' '') \<longleftrightarrow> x = CHR '' ''"
  "canonicalize x = canonicalize (CHR '':'') \<longleftrightarrow> x = CHR '':''"
proof -
  show "canonicalize x = canonicalize (CHR ''T'') \<longleftrightarrow> x = CHR ''T'' \<or> x = CHR ''t''"
    by (rule ci_letter [where u = 84]) simp_all
  show "canonicalize x = canonicalize (CHR ''O'') \<longleftrightarrow> x = CHR ''O'' \<or> x = CHR ''o''"
    by (rule ci_letter [where u = 79]) simp_all
  show "canonicalize x = canonicalize (CHR ''A'') \<longleftrightarrow> x = CHR ''A'' \<or> x = CHR ''a''"
    by (rule ci_letter [where u = 65]) simp_all
  show "canonicalize x = canonicalize (CHR ''L'') \<longleftrightarrow> x = CHR ''L'' \<or> x = CHR ''l''"
    by (rule ci_letter [where u = 76]) simp_all
  show "canonicalize x = canonicalize (CHR ''H'') \<longleftrightarrow> x = CHR ''H'' \<or> x = CHR ''h''"
    by (rule ci_letter [where u = 72]) simp_all
  show "canonicalize x = canonicalize (CHR ''U'') \<longleftrightarrow> x = CHR ''U'' \<or> x = CHR ''u''"
    by (rule ci_letter [where u = 85]) simp_all
  show "canonicalize x = canonicalize (CHR ''R'') \<longleftrightarrow> x = CHR ''R'' \<or> x = CHR ''r''"
    by (rule ci_letter [where u = 82]) simp_all
  show "canonicalize x = canonicalize (CHR ''S'') \<longleftrightarrow> x = CHR ''S'' \<or> x = CHR ''s''"
    by (rule ci_letter [where u = 83]) simp_all
  show "canonicalize x = canonicalize (CHR '' '') \<longleftrightarrow> x = CHR '' ''"
    by (rule ci_other) simp
  show "canonicalize x = canonicalize (CHR '':'') \<longleftrightarrow> x = CHR '':''"
    by (rule ci_other) simp
qed

lemma counts_one:
  "counts (Rep p (Suc 0) (Some (Suc 0)) g) s = (case s of [] \<Rightarrow> [] | x # xs \<Rightarrow> if p x then [Suc 0] else [])"
  by (cases s) (simp_all add: counts_def)

lemma matchHere_LitI:
  "matchHere (LitI c # its) s =
     (case s of [] \<Rightarrow> None
      | x # xs \<Rightarrow> if canonicalize x = canonicalize c then map_option ((#) [x]) (matchHere its xs) else None)"
  by (cases s) (simp_all add: LitI_def counts_one split: option.split)

lemma matchHere_Lit:
  "matchHere (Lit c # its) s =
     (case s of [] \<Rightarrow> None
      | x # xs \<Rightarrow> if x = c then map_option ((#) [x]) (matchHere its xs) else None)"
  by (cases s) (simp_all add: Lit_def counts_one split: option.split)

lemma counts_exact:
  "counts (Rep p n (Some n) g) s = (if n \<le> length s \<and> list_all p (take n s) then [n] else [])"
proof -
  have "n \<le> length (takeWhile p s) \<longleftrightarrow> n \<le> length s \<and> list_all p (take n s)"
    by (rule le_takeWhile_iff)
  then show ?thesis
    by (auto simp: counts_def Let_def min_def)
qed

lemma matchHere_exact:
  "matchHere (Rep p n (Some n) g # its) s =
     (if n \<le> length s \<and> list_all p (take n s)
      then map_option ((#) (take n s)) (matchHere its (drop n s)) else None)"
  by (simp add: counts_exact split: option.split)

lemma matchHere_exact_first:
  "matchHere (Rep p 2 (Some 2) g # its) [] = None"
  "matchHere (Rep p 2 (Some 2) g # its) (x # xs) =
     (if p x then
        (if 2 \<le> length (x # xs) \<and> list_all p (take 2 (x # xs))
         then map_option ((#) (take 2 (x # xs))) (matchHere its (drop 2 (x # xs))) else None)
      else None)"
  "matchHere (Rep p 4 (Some 4) g # its) [] = None"
  "matchHere (Rep p 4 (Some 4) g # its) (x # xs) =
     (if p x then
        (if 4 \<le> length (x # xs) \<and> list_all p (take 4 (x # xs))
         then map_option ((#) (take 4 (x # xs))) (matchHere its (drop 4 (x # xs))) else None)
      else None)"
  by (simp_all add: matchHere_exact del: matchHere.simps(2))

lemma matchHere_star:
  "matchHere (Rep p 0 None g # its) s =
     firstSome (\<lambda>k. map_option ((#) (take k s)) (matchHere its (drop k s)))
       (rev [0 ..< Suc (length (takeWhile p s))])"
  by (simp only: matchHere.simps counts_def Let_def item.sel option.case)

lemma matchHere_1_3:
  "matchHere (Rep p (Suc 0) (Some 3) g # its) s =
     firstSome (\<lambda>k. map_option ((#) (take k s)) (matchHere its (drop k s)))
       (rev [Suc 0 ..< Suc (min 3 (length (takeWhile p s)))])"
  by (simp only: matchHere.simps counts_def Let_def item.sel option.case)

lemma matchHere_one:
  "matchHere (Rep p (Suc 0) (Some (Suc 0)) g # its) s =
     (case s of [] \<Rightarrow> None
      | x # xs \<Rightarrow> if p x then map_option ((#) [x]) (matchHere its xs) else None)"
  by (cases s) (simp_all add: counts_one split: option.split)

lemmas match_eval =
  totalHours_re1_def totalHours_re2_def timestamp_re_def dateRange_re_def date_re_def capture_def
  matchHere_LitI matchHere_Lit matchHere_exact_first matchHere_star matchHere_1_3
  matchHere_one ci_chars
  isDigit_def isSpace_def

lemma grp_Lit [simp]: "grp (Lit c) = 0" "grp (LitI c) = 0"
  by (simp_all add: Lit_def LitI_def)

lemma sel_Lit [simp]:
  "cls (Lit c) = (\<lambda>x. x = c)" "lo (Lit c) = 1" "hi (Lit c) = Some 1"
  "cls (LitI c) = (\<lambda>x. canonicalize x = canonicalize c)" "lo (LitI c) = 1" "hi (LitI c) = Some 1"
  by (simp_all add: Lit_def LitI_def)

lemmas group_eval =
  group_def totalHours_re1_def totalHours_re2_def timestamp_re_def dateRange_re_def date_re_def
  capture_def

lemmas parseInt_eval = parseInt10_def isSpace_def isDigit_def digit_value_def Let_def

lemma str_match_here: "matchHere re s = Some ps \<Longrightarrow> str_match re s = Some ps"
  by (cases s) simp_all

lemma str_match_skip:
  "(\<forall>k<length pre. matchHere re (drop k (pre @ rest)) = None)
     \<Longrightarrow> str_match re (pre @ rest) = str_match re rest"
proof (induction pre)
  case Nil
  then show ?case by simp
next
  case (Cons c pre)
  from Cons.prems have here: "matchHere re (c # pre @ rest) = None"
    by (auto dest: spec [of _ 0])
  have "\<forall>k<length pre. matchHere re (drop k (pre @ rest)) = None"
  proof (intro allI impI)
    fix k assume "k < length pre"
    then have "Suc k < length (c # pre)" by simp
    with Cons.prems have "matchHere re (drop (Suc k) ((c # pre) @ rest)) = None"
      by blast
    then show "matchHere re (drop k (pre @ rest)) = None" by simp
  qed
  with Cons.IH have "str_match re (pre @ rest) = str_match re rest" by simp
  with here show ?case by simp
qed

lemma none_before_matchHere:
  assumes nb: "none_before (words re) pre t" and t: "t = pre @ rest" and k: "k < length pre"
  shows "matchHere re (drop k t) = None"
proof (rule ccontr)
  assume "matchHere re (drop k t) \<noteq> None"
  then obtain w r where d: "drop k t = w @ r" and w: "words re w"
    using matchHere_iff [of re "drop k t"] by blast
  have "t = take k t @ w @ r"
    using d by (metis append_take_drop_id)
  with nb w have "length pre \<le> length (take k t)"
    unfolding none_before_def by blast
  with k t show False by simp
qed

lemma str_match_leftmost:
  assumes t: "t = pre @ rest" and nb: "none_before (words re) pre t"
    and m: "matchHere re rest = Some ps"
  shows "str_match re t = Some ps"
proof -
  have "\<forall>k<length pre. matchHere re (drop k (pre @ rest)) = None"
    using none_before_matchHere [OF nb t] t by simp
  then have "str_match re (pre @ rest) = str_match re rest"
    by (rule str_match_skip)
  with m t show ?thesis
    by (simp add: str_match_here)
qed

lemma words_eqs:
  "words totalHours_re1 = total_line1" "words totalHours_re2 = total_line2"
  "words dateRange_re = date_range"
  by (rule ext, rule words_total_line1 words_total_line2 words_date_range)+





section \<open>Parsing\<close>





lemma parseTogglPdf1_Some:
  assumes "pdf pdfBuffer = Inr t" and "str_match totalHours_re1 t = Some ps"
  shows "parseTogglPdf1 pdf pdfBuffer =
     Inr \<lparr> hours = parseInt10 (group totalHours_re1 ps 1),
           minutes = parseInt10 (group totalHours_re1 ps 2),
           seconds = parseInt10 (group totalHours_re1 ps 3),
           dateRange = (case str_match dateRange_re t of
                          Some ds \<Rightarrow> group dateRange_re ds 1 @ '' - '' @ group dateRange_re ds 2
                        | None \<Rightarrow> ''this week'') \<rparr>"
  using assms by (simp add: parseTogglPdf1_def)

lemma parseTogglPdf2_Some:
  assumes "pdf pdfBuffer = Inr t" and "str_match totalHours_re2 t = Some ps"
  shows "parseTogglPdf2 pdf pdfBuffer =
     Inr \<lparr> hours = parseInt10 (group totalHours_re2 ps 1),
           minutes = parseInt10 (group totalHours_re2 ps 2),
           seconds = parseInt10 (group totalHours_re2 ps 3),
           dateRange = (case str_match dateRange_re t of
                          Some ds \<Rightarrow> group dateRange_re ds 1 @ '' - '' @ group dateRange_re ds 2
                        | None \<Rightarrow> ''this week'') \<rparr>"
  using assms by (simp add: parseTogglPdf2_def)

lemma match_37_15_45:
  "matchHere totalHours_re1 (''TOTAL HOURS: 37:15:45'' @ post)
     = Some [''T'', ''O'', ''T'', ''A'', ''L'', '' '', ''H'', ''O'', ''U'', ''R'', ''S'', '':'', '' '',
             ''37'', '':'', ''15'', '':'', ''45'']"
  "matchHere totalHours_re2 (''TOTAL HOURS: 37:15:45'' @ post)
     = Some [''T'', ''O'', ''T'', ''A'', ''L'', '' '', ''H'', ''O'', ''U'', ''R'', ''S'', '': '',
             ''37'', '':'', ''15'', '':'', ''45'']"
  by (simp_all add: match_eval del: matchHere.simps(2))

lemma none_beforeI:
  assumes "\<forall>k<length pre. matchHere re (drop k t) = None"
  shows "none_before (words re) pre t"
  unfolding none_before_def
proof (intro allI impI)
  fix pre' w post'
  assume a: "t = pre' @ w @ post' \<and> words re w"
  show "length pre \<le> length pre'"
  proof (rule ccontr)
    assume "\<not> length pre \<le> length pre'"
    then have "length pre' < length pre" by simp
    with assms have "matchHere re (drop (length pre') t) = None" by blast
    moreover have "matchHere re (drop (length pre') t) \<noteq> None"
      using a matchHere_iff [of re "drop (length pre') t"] by auto
    ultimately show False by simp
  qed
qed

text \<open>
  C3, as the claim states it, fails: a text can contain \<^verbatim>\<open>TOTAL HOURS: 37:15:45\<close>
  after an earlier total, and \<^verbatim>\<open>String.prototype.match\<close> returns the leftmost match.
\<close>

theorem parseTogglPdf_first_total_counterexample:
  "parseTogglPdf1 (\<lambda>b. Inr (''TOTAL HOURS: 1:00:00 '' @ ''TOTAL HOURS: 37:15:45'')) []
     = Inr \<lparr> hours = Num 1, minutes = Num 0, seconds = Num 0, dateRange = ''this week'' \<rparr>
   \<and> parseTogglPdf2 (\<lambda>b. Inr (''TOTAL HOURS: 1:00:00 '' @ ''TOTAL HOURS: 37:15:45'')) []
     = Inr \<lparr> hours = Num 1, minutes = Num 0, seconds = Num 0, dateRange = ''this week'' \<rparr>"
  by (simp add: parseTogglPdf1_def parseTogglPdf2_def match_eval group_eval parseInt_eval
      del: matchHere.simps(2))

text \<open>
  C3, amended. When \<^verbatim>\<open>TOTAL HOURS: 37:15:45\<close> is the leftmost occurrence of the
  total-hours pattern in the extracted text (no occurrence begins before it),
  \<^verbatim>\<open>parseTogglPdf\<close> returns hours 37, minutes 15 and seconds 45; and whenever the
  total-hours pattern occurs and the date-range pattern (two dates \<^verbatim>\<open>MM/DD/YYYY\<close> with a
  hyphen between them, white space allowed around the hyphen) occurs nowhere in the
  text, the parse succeeds and \<^verbatim>\<open>dateRange\<close> is \<^verbatim>\<open>this week\<close>. Both scripts.
\<close>

theorem parseTogglPdf_result:
  assumes "pdf pdfBuffer = Inr t"
  shows "(t = pre @ ''TOTAL HOURS: 37:15:45'' @ post \<and> none_before total_line1 pre t
            \<longrightarrow> (\<exists>d. parseTogglPdf1 pdf pdfBuffer
                   = Inr \<lparr> hours = Num 37, minutes = Num 15, seconds = Num 45, dateRange = d \<rparr>))
       \<and> (t = pre @ ''TOTAL HOURS: 37:15:45'' @ post \<and> none_before total_line2 pre t
            \<longrightarrow> (\<exists>d. parseTogglPdf2 pdf pdfBuffer
                   = Inr \<lparr> hours = Num 37, minutes = Num 15, seconds = Num 45, dateRange = d \<rparr>))
       \<and> (occurs total_line1 t \<and> \<not> occurs date_range t
            \<longrightarrow> (\<exists>h m s. parseTogglPdf1 pdf pdfBuffer
                   = Inr \<lparr> hours = h, minutes = m, seconds = s, dateRange = ''this week'' \<rparr>))
       \<and> (occurs total_line2 t \<and> \<not> occurs date_range t
            \<longrightarrow> (\<exists>h m s. parseTogglPdf2 pdf pdfBuffer
                   = Inr \<lparr> hours = h, minutes = m, seconds = s, dateRange = ''this week'' \<rparr>))"
proof -
  have a: "\<exists>d. parseTogglPdf1 pdf pdfBuffer
                   = Inr \<lparr> hours = Num 37, minutes = Num 15, seconds = Num 45, dateRange = d \<rparr>"
    if t: "t = pre @ ''TOTAL HOURS: 37:15:45'' @ post" and nb: "none_before total_line1 pre t"
  proof -
    from nb have "none_before (words totalHours_re1) pre t"
      by (simp add: words_eqs)
    from str_match_leftmost [OF t this match_37_15_45(1)]
    have "parseTogglPdf1 pdf pdfBuffer = Inr \<lparr> hours = Num 37, minutes = Num 15, seconds = Num 45,
        dateRange = (case str_match dateRange_re t of
                          Some ds \<Rightarrow> group dateRange_re ds 1 @ '' - '' @ group dateRange_re ds 2
                        | None \<Rightarrow> ''this week'') \<rparr>"
      by (simp add: parseTogglPdf1_Some [of pdf pdfBuffer t, OF assms] group_eval parseInt_eval)
    then show ?thesis by blast
  qed
  have b: "\<exists>d. parseTogglPdf2 pdf pdfBuffer
                   = Inr \<lparr> hours = Num 37, minutes = Num 15, seconds = Num 45, dateRange = d \<rparr>"
    if t: "t = pre @ ''TOTAL HOURS: 37:15:45'' @ post" and nb: "none_before total_line2 pre t"
  proof -
    from nb have "none_before (words totalHours_re2) pre t"
      by (simp add: words_eqs)
    from str_match_leftmost [OF t this match_37_15_45(2)]
    have "parseTogglPdf2 pdf pdfBuffer = Inr \<lparr> hours = Num 37, minutes = Num 15, seconds = Num 45,
        dateRange = (case str_match dateRange_re t of
                          Some ds \<Rightarrow> group dateRange_re ds 1 @ '' - '' @ group dateRange_re ds 2
                        | None \<Rightarrow> ''this week'') \<rparr>"
      by (simp add: parseTogglPdf2_Some [of pdf pdfBuffer t, OF assms] group_eval parseInt_eval)
    then show ?thesis by blast
  qed
  have nodate: "str_match dateRange_re t = None" if "\<not> occurs date_range t"
    using that str_match_iff [of dateRange_re t] by (simp add: words_eqs)
  have c: "\<exists>h m s. parseTogglPdf1 pdf pdfBuffer
                   = Inr \<lparr> hours = h, minutes = m, seconds = s, dateRange = ''this week'' \<rparr>"
    if "occurs total_line1 t" and nd: "\<not> occurs date_range t"
  proof -
    from that(1) obtain ps where "str_match totalHours_re1 t = Some ps"
      using str_match_iff [of totalHours_re1 t] by (auto simp: words_eqs)
    from parseTogglPdf1_Some [of pdf pdfBuffer t, OF assms this] nodate [OF nd]
    show ?thesis by simp
  qed
  have d: "\<exists>h m s. parseTogglPdf2 pdf pdfBuffer
                   = Inr \<lparr> hours = h, minutes = m, seconds = s, dateRange = ''this week'' \<rparr>"
    if "occurs total_line2 t" and nd: "\<not> occurs date_range t"
  proof -
    from that(1) obtain ps where "str_match totalHours_re2 t = Some ps"
      using str_match_iff [of totalHours_re2 t] by (auto simp: words_eqs)
    from parseTogglPdf2_Some [of pdf pdfBuffer t, OF assms this] nodate [OF nd]
    show ?thesis by simp
  qed
  from a b c d show ?thesis by blast
qed

text \<open>The theorem of C3 at a report line with prose before and after the total.\<close>

theorem parseTogglPdf_result_witness:
  "none_before total_line1 ''Report: '' ''Report: TOTAL HOURS: 37:15:45 (5 entries)''
   \<and> none_before total_line2 ''Report: '' ''Report: TOTAL HOURS: 37:15:45 (5 entries)''
   \<and> occurs total_line1 ''Report: TOTAL HOURS: 37:15:45 (5 entries)''
   \<and> occurs total_line2 ''Report: TOTAL HOURS: 37:15:45 (5 entries)''
   \<and> \<not> occurs date_range ''Report: TOTAL HOURS: 37:15:45 (5 entries)''
   \<and> parseTogglPdf1 (\<lambda>b. Inr ''Report: TOTAL HOURS: 37:15:45 (5 entries)'') []
       = Inr \<lparr> hours = Num 37, minutes = Num 15, seconds = Num 45, dateRange = ''this week'' \<rparr>
   \<and> parseTogglPdf2 (\<lambda>b. Inr ''Report: TOTAL HOURS: 37:15:45 (5 entries)'') []
       = Inr \<lparr> hours = Num 37, minutes = Num 15, seconds = Num 45, dateRange = ''this week'' \<rparr>"
proof -
  let ?t = "''Report: TOTAL HOURS: 37:15:45 (5 entries)''"
  let ?pdf = "\<lambda>b :: buffer. (Inr ?t :: error + string)"
  have ok: "?pdf [] = Inr ?t" by simp
  have shape: "?t = ''Report: '' @ ''TOTAL HOURS: 37:15:45'' @ '' (5 entries)''" by simp
  have nb1: "none_before total_line1 ''Report: '' ?t"
    unfolding words_eqs [symmetric]
    by (rule none_beforeI) (simp add: All_less_Suc match_eval del: matchHere.simps(2))
  have nb2: "none_before total_line2 ''Report: '' ?t"
    unfolding words_eqs [symmetric]
    by (rule none_beforeI) (simp add: All_less_Suc match_eval del: matchHere.simps(2))
  have m: "str_match totalHours_re1 ?t \<noteq> None" "str_match totalHours_re2 ?t \<noteq> None"
    by (simp_all add: match_eval del: matchHere.simps(2))
  have oc: "occurs total_line1 ?t" "occurs total_line2 ?t"
    using m str_match_iff [of totalHours_re1 ?t] str_match_iff [of totalHours_re2 ?t]
    unfolding words_eqs by blast+
  have "str_match dateRange_re ?t = None"
    by (simp add: match_eval del: matchHere.simps(2))
  then have nd: "\<not> occurs date_range ?t"
    using str_match_iff [of dateRange_re ?t] unfolding words_eqs by blast
  note th = parseTogglPdf_result [of ?pdf "[]" ?t "''Report: ''" "'' (5 entries)''", OF ok]
  from th shape nb1 nd oc
  have "\<exists>d. parseTogglPdf1 ?pdf [] = Inr \<lparr> hours = Num 37, minutes = Num 15, seconds = Num 45, dateRange = d \<rparr>"
    and "\<exists>h m s. parseTogglPdf1 ?pdf [] = Inr \<lparr> hours = h, minutes = m, seconds = s, dateRange = ''this week'' \<rparr>"
    by blast+
  then have r1: "parseTogglPdf1 ?pdf [] = Inr \<lparr> hours = Num 37, minutes = Num 15, seconds = Num 45, dateRange = ''this week'' \<rparr>"
    by auto
  from th shape nb2 nd oc
  have "\<exists>d. parseTogglPdf2 ?pdf [] = Inr \<lparr> hours = Num 37, minutes = Num 15, seconds = Num 45, dateRange = d \<rparr>"
    and "\<exists>h m s. parseTogglPdf2 ?pdf [] = Inr \<lparr> hours = h, minutes = m, seconds = s, dateRange = ''this week'' \<rparr>"
    by blast+
  then have r2: "parseTogglPdf2 ?pdf [] = Inr \<lparr> hours = Num 37, minutes = Num 15, seconds = Num 45, dateRange = ''this week'' \<rparr>"
    by auto
  from nb1 nb2 oc nd r1 r2 show ?thesis by blast
qed

section \<open>The handlers and the weekly tracker\<close>

lemma find_isPdf_nonempty: "find isPdf fs = Some f \<Longrightarrow> fs \<noteq> []"
  by (cases fs) simp_all




lemma message_handler2_tracker:
  assumes "message_handler2 w e s = (r, s')"
  shows "(timesheetReceivedThisWeek s' = timesheetReceivedThisWeek s
            \<and> lastTimesheetDate s' = lastTimesheetDate s)
       \<or> (timesheetReceivedThisWeek s' \<and> lastTimesheetDate s' = Some (now w)
           \<and> (\<exists>fs f pdfBuffer timeData.
                 files e = Some fs \<and> find isPdf fs = Some f \<and> isTogglExport f
               \<and> \<not> (checkFridayOnly w \<and> \<not> isFriday w)
               \<and> downloadFile w (url_private f) (SLACK_BOT_TOKEN w) = Inr pdfBuffer
               \<and> parseTogglPdf2 (pdf_parse w) pdfBuffer = Inr timeData
               \<and> postMessage w (Suc (length (trace s))) (HR_USER_ID w)
                    (formatTimeMessage (config_employeeName w)
                       (roundToNearestMinute (hours timeData) (minutes timeData) (seconds timeData))
                       (dateRange timeData)) = None))"
  using assms
  by (auto simp: message_handler2_def try_message2_def chat_postMessage_def download_def Let_def
      split: option.splits if_splits sum.splits prod.splits)

lemma message_handler2_changes:
  assumes "message_handler2 w e s = (r, s')"
  shows "(timesheetReceivedThisWeek s' = timesheetReceivedThisWeek s
            \<and> lastTimesheetDate s' = lastTimesheetDate s)
       \<or> (timesheetReceivedThisWeek s' \<and> lastTimesheetDate s' = Some (now w)
           \<and> (\<exists>hrMessage. relayed_by w e s hrMessage))"
  using message_handler2_tracker [OF assms] unfolding relayed_by_def by blast

lemma message_handler2_relay:
  assumes "files e = Some fs" and "find isPdf fs = Some f" and "isTogglExport f"
    and "\<not> (checkFridayOnly w \<and> \<not> isFriday w)"
    and "downloadFile w (url_private f) (SLACK_BOT_TOKEN w) = Inr pdfBuffer"
    and "parseTogglPdf2 (pdf_parse w) pdfBuffer = Inr timeData"
    and "hrMessage = formatTimeMessage (config_employeeName w)
            (roundToNearestMinute (hours timeData) (minutes timeData) (seconds timeData))
            (dateRange timeData)"
  shows "\<exists>r s' more. message_handler2 w e s = (r, s')
       \<and> trace s' = trace s @ [Download (url_private f), Post (HR_USER_ID w) hrMessage] @ more
       \<and> (postMessage w (Suc (length (trace s))) (HR_USER_ID w) hrMessage = None
            \<longrightarrow> timesheetReceivedThisWeek s' \<and> lastTimesheetDate s' = Some (now w))"
proof -
  have ne: "fs \<noteq> []" using assms(2) by (rule find_isPdf_nonempty)
  show ?thesis
    using assms ne
    by (auto simp: message_handler2_def try_message2_def chat_postMessage_def download_def Let_def
        split: option.splits)
qed

lemma relayed_by_satisfied:
  assumes "relayed_by w e s hrMessage" and "message_handler2 w e s = (r, s')"
  shows "timesheetReceivedThisWeek s' \<and> lastTimesheetDate s' = Some (now w)"
proof -
  from assms(1) obtain fs f pdfBuffer timeData where h:
    "files e = Some fs" "find isPdf fs = Some f" "isTogglExport f"
    "\<not> (checkFridayOnly w \<and> \<not> isFriday w)"
    "downloadFile w (url_private f) (SLACK_BOT_TOKEN w) = Inr pdfBuffer"
    "parseTogglPdf2 (pdf_parse w) pdfBuffer = Inr timeData"
    "hrMessage = formatTimeMessage (config_employeeName w)
            (roundToNearestMinute (hours timeData) (minutes timeData) (seconds timeData))
            (dateRange timeData)"
    "postMessage w (Suc (length (trace s))) (HR_USER_ID w) hrMessage = None"
    unfolding relayed_by_def by blast
  from message_handler2_relay [OF h(1-7), of s] h(8) assms(2) show ?thesis
    by auto
qed

lemma reminder_keeps_tracker:
  "timesheetReceivedThisWeek (sendReminderToRoxie w s) = timesheetReceivedThisWeek s"
  "lastTimesheetDate (sendReminderToRoxie w s) = lastTimesheetDate s"
  "timesheetReceivedThisWeek (friday_check_job w s) = timesheetReceivedThisWeek s"
  "lastTimesheetDate (friday_check_job w s) = lastTimesheetDate s"
  by (simp_all add: sendReminderToRoxie_def friday_check_job_def chat_postMessage_def)




lemma report_file_recognized: "isPdf report_file" "isTogglExport report_file"
  by (simp_all add: isPdf_def isTogglExport_def report_file_def) code_simp





text \<open>
  C8. The tracker starts in PENDING (not received, no date). \<^verbatim>\<open>resetWeeklyTracker\<close>
  (the Monday job) gives PENDING from every state and resetting twice is resetting
  once. The handler leaves the tracker as it was or sets it to SATISFIED with the date
  of the clock, and the latter only with a successful relay; a successful relay does
  set it. Neither the handler nor the reminder nor the Friday check ever sets
  \<^verbatim>\<open>timesheetReceivedThisWeek\<close> back to false.
\<close>

theorem weekly_tracker:
  "\<not> timesheetReceivedThisWeek initial_state \<and> lastTimesheetDate initial_state = None
   \<and> \<not> timesheetReceivedThisWeek (resetWeeklyTracker s)
   \<and> lastTimesheetDate (resetWeeklyTracker s) = None
   \<and> resetWeeklyTracker (resetWeeklyTracker s) = resetWeeklyTracker s
   \<and> monday_reset_job s = resetWeeklyTracker s
   \<and> (message_handler2 w e s = (r, s') \<longrightarrow>
         (timesheetReceivedThisWeek s' = timesheetReceivedThisWeek s
            \<and> lastTimesheetDate s' = lastTimesheetDate s)
         \<or> (timesheetReceivedThisWeek s' \<and> lastTimesheetDate s' = Some (now w)
             \<and> (\<exists>hrMessage. relayed_by w e s hrMessage)))
   \<and> (message_handler2 w e s = (r, s') \<and> relayed_by w e s hrMessage \<longrightarrow>
         timesheetReceivedThisWeek s' \<and> lastTimesheetDate s' = Some (now w))
   \<and> (message_handler2 w e s = (r, s') \<and> timesheetReceivedThisWeek s \<longrightarrow>
         timesheetReceivedThisWeek s')
   \<and> timesheetReceivedThisWeek (sendReminderToRoxie w s) = timesheetReceivedThisWeek s
   \<and> lastTimesheetDate (sendReminderToRoxie w s) = lastTimesheetDate s
   \<and> timesheetReceivedThisWeek (friday_check_job w s) = timesheetReceivedThisWeek s
   \<and> lastTimesheetDate (friday_check_job w s) = lastTimesheetDate s"
proof -
  have init: "\<not> timesheetReceivedThisWeek initial_state \<and> lastTimesheetDate initial_state = None"
    by (simp add: initial_state_def)
  have reset: "\<not> timesheetReceivedThisWeek (resetWeeklyTracker s)
      \<and> lastTimesheetDate (resetWeeklyTracker s) = None
      \<and> resetWeeklyTracker (resetWeeklyTracker s) = resetWeeklyTracker s
      \<and> monday_reset_job s = resetWeeklyTracker s"
    by (simp add: resetWeeklyTracker_def monday_reset_job_def)
  have only: "message_handler2 w e s = (r, s') \<longrightarrow>
         (timesheetReceivedThisWeek s' = timesheetReceivedThisWeek s
            \<and> lastTimesheetDate s' = lastTimesheetDate s)
         \<or> (timesheetReceivedThisWeek s' \<and> lastTimesheetDate s' = Some (now w)
             \<and> (\<exists>hrMessage. relayed_by w e s hrMessage))"
    using message_handler2_changes [of w e s r s'] by blast
  have relay: "message_handler2 w e s = (r, s') \<and> relayed_by w e s hrMessage \<longrightarrow>
         timesheetReceivedThisWeek s' \<and> lastTimesheetDate s' = Some (now w)"
    using relayed_by_satisfied [of w e s hrMessage r s'] by blast
  have mono: "message_handler2 w e s = (r, s') \<and> timesheetReceivedThisWeek s \<longrightarrow>
         timesheetReceivedThisWeek s'"
    using message_handler2_changes [of w e s r s'] by blast
  from init reset only relay mono reminder_keeps_tracker [of w s] show ?thesis
    by blast
qed

lemma scenario_parse:
  "parseTogglPdf2 (\<lambda>b. Inr ''TOTAL HOURS: 5:45:10 01/05/2024 - 01/11/2024'') pdfBuffer
     = Inr \<lparr> hours = Num 5, minutes = Num 45, seconds = Num 10,
             dateRange = ''01/05/2024 - 01/11/2024'' \<rparr>"
  by (simp add: parseTogglPdf2_def match_eval group_eval parseInt_eval del: matchHere.simps(2))

lemma scenario_message:
  "formatTimeMessage ''Roxie'' (roundToNearestMinute (Num 5) (Num 45) (Num 10))
      ''01/05/2024 - 01/11/2024''
     = ''Roxie's time for week of 01/05/2024 - 01/11/2024: *5 hours 45 minutes*''"
  by (simp add: formatTimeMessage_def roundToNearestMinute_def timeStr_def Let_def digits_of.simps)

lemma scenario_relayed:
  "relayed_by (scenario_world ''TOTAL HOURS: 5:45:10 01/05/2024 - 01/11/2024'')
     (scenario_event [report_file]) initial_state
     ''Roxie's time for week of 01/05/2024 - 01/11/2024: *5 hours 45 minutes*''"
  unfolding relayed_by_def
  apply (rule exI [of _ "[report_file]"], rule exI [of _ report_file],
      rule exI [of _ "[37, 80, 68, 70]"],
      rule exI [of _ "\<lparr> hours = Num 5, minutes = Num 45, seconds = Num 10,
             dateRange = ''01/05/2024 - 01/11/2024'' \<rparr>"])
  apply (simp add: scenario_world_def scenario_event_def report_file_recognized scenario_parse
      scenario_message config_employeeName_def checkFridayOnly_def isFriday_def)
  done

text \<open>The theorem of C8 at the end-to-end scenario: relayed, SATISFIED, and PENDING again
  after the reset.\<close>

theorem weekly_tracker_witness:
  "relayed_by (scenario_world ''TOTAL HOURS: 5:45:10 01/05/2024 - 01/11/2024'')
     (scenario_event [report_file]) initial_state
     ''Roxie's time for week of 01/05/2024 - 01/11/2024: *5 hours 45 minutes*''
   \<and> timesheetReceivedThisWeek (snd (message_handler2
         (scenario_world ''TOTAL HOURS: 5:45:10 01/05/2024 - 01/11/2024'')
         (scenario_event [report_file]) initial_state))
   \<and> lastTimesheetDate (snd (message_handler2
         (scenario_world ''TOTAL HOURS: 5:45:10 01/05/2024 - 01/11/2024'')
         (scenario_event [report_file]) initial_state)) = Some 1704931200000
   \<and> \<not> timesheetReceivedThisWeek (resetWeeklyTracker (snd (message_handler2
         (scenario_world ''TOTAL HOURS: 5:45:10 01/05/2024 - 01/11/2024'')
         (scenario_event [report_file]) initial_state)))"
proof -
  let ?w = "scenario_world ''TOTAL HOURS: 5:45:10 01/05/2024 - 01/11/2024''"
  let ?e = "scenario_event [report_file]"
  let ?M = "''Roxie's time for week of 01/05/2024 - 01/11/2024: *5 hours 45 minutes*''"
  let ?res = "message_handler2 ?w ?e initial_state"
  have run: "?res = (fst ?res, snd ?res)" by simp
  note th = weekly_tracker [of initial_state ?w ?e "fst ?res" "snd ?res" ?M]
  from th run scenario_relayed
  have sat: "timesheetReceivedThisWeek (snd ?res) \<and> lastTimesheetDate (snd ?res) = Some (now ?w)"
    by blast
  from weekly_tracker [of "snd ?res" ?w ?e "fst ?res" "snd ?res" ?M]
  have "\<not> timesheetReceivedThisWeek (resetWeeklyTracker (snd ?res))"
    by blast
  with sat scenario_relayed show ?thesis
    by (simp add: scenario_world_def)
qed

lemma parseTogglPdf2_extraction_error:
  "pdf pdfBuffer = Inl err \<Longrightarrow> parseTogglPdf2 pdf pdfBuffer = Inl err"
  by (simp add: parseTogglPdf2_def)

text \<open>
  C9. For an event with a candidate PDF: when the download fails, or the text
  extraction fails, or the parse fails, or the delivery of the summary to the HR
  recipient fails, the tracker is after the event what it was before.
\<close>

theorem tracker_unchanged_on_failure:
  assumes "files e = Some fs" and "find isPdf fs = Some f"
    and "message_handler2 w e s = (r, s')"
    and "(\<exists>err. downloadFile w (url_private f) (SLACK_BOT_TOKEN w) = Inl err)
       \<or> (\<exists>pdfBuffer err. downloadFile w (url_private f) (SLACK_BOT_TOKEN w) = Inr pdfBuffer
             \<and> pdf_parse w pdfBuffer = Inl err)
       \<or> (\<exists>pdfBuffer err. downloadFile w (url_private f) (SLACK_BOT_TOKEN w) = Inr pdfBuffer
             \<and> parseTogglPdf2 (pdf_parse w) pdfBuffer = Inl err)
       \<or> (\<exists>pdfBuffer timeData err.
               downloadFile w (url_private f) (SLACK_BOT_TOKEN w) = Inr pdfBuffer
             \<and> parseTogglPdf2 (pdf_parse w) pdfBuffer = Inr timeData
             \<and> postMessage w (Suc (length (trace s))) (HR_USER_ID w)
                  (formatTimeMessage (config_employeeName w)
                     (roundToNearestMinute (hours timeData) (minutes timeData) (seconds timeData))
                     (dateRange timeData)) = Some err)"
  shows "timesheetReceivedThisWeek s' = timesheetReceivedThisWeek s
       \<and> lastTimesheetDate s' = lastTimesheetDate s"
proof (rule ccontr)
  assume "\<not> (timesheetReceivedThisWeek s' = timesheetReceivedThisWeek s
       \<and> lastTimesheetDate s' = lastTimesheetDate s)"
  with message_handler2_tracker [OF assms(3)]
  obtain fs' f' pdfBuffer timeData where h:
    "files e = Some fs'" "find isPdf fs' = Some f'"
    "downloadFile w (url_private f') (SLACK_BOT_TOKEN w) = Inr pdfBuffer"
    "parseTogglPdf2 (pdf_parse w) pdfBuffer = Inr timeData"
    "postMessage w (Suc (length (trace s))) (HR_USER_ID w)
       (formatTimeMessage (config_employeeName w)
          (roundToNearestMinute (hours timeData) (minutes timeData) (seconds timeData))
          (dateRange timeData)) = None"
    by blast
  from h(1,2) assms(1,2) have same: "f' = f" by simp
  from assms(4) show False
  proof (elim disjE exE conjE)
    fix err assume "downloadFile w (url_private f) (SLACK_BOT_TOKEN w) = Inl err"
    with h(3) same show False by simp
  next
    fix b err
    assume "downloadFile w (url_private f) (SLACK_BOT_TOKEN w) = Inr b" "pdf_parse w b = Inl err"
    with h(3,4) same parseTogglPdf2_extraction_error [of "pdf_parse w" b err] show False by simp
  next
    fix b err
    assume "downloadFile w (url_private f) (SLACK_BOT_TOKEN w) = Inr b"
      "parseTogglPdf2 (pdf_parse w) b = Inl err"
    with h(3,4) same show False by simp
  next
    fix b td err
    assume "downloadFile w (url_private f) (SLACK_BOT_TOKEN w) = Inr b"
      "parseTogglPdf2 (pdf_parse w) b = Inr td"
      "postMessage w (Suc (length (trace s))) (HR_USER_ID w)
         (formatTimeMessage (config_employeeName w)
            (roundToNearestMinute (hours td) (minutes td) (seconds td)) (dateRange td)) = Some err"
    with h(3,4,5) same show False by simp
  qed
qed

text \<open>The theorem of C9 at four worlds: the delivery to HR fails, the download fails, the
  extraction fails, the text has no total.\<close>

theorem tracker_unchanged_on_failure_witness:
  "\<not> timesheetReceivedThisWeek (snd (message_handler2
        ((scenario_world ''TOTAL HOURS: 5:45:10 01/05/2024 - 01/11/2024'')
           \<lparr> postMessage := (\<lambda>n ch msg. if ch = Some ''U_HR''
                                        then Some (Error ''channel_not_found'') else None) \<rparr>)
        (scenario_event [report_file]) initial_state))
   \<and> \<not> timesheetReceivedThisWeek (snd (message_handler2
        ((scenario_world ''TOTAL HOURS: 5:45:10 01/05/2024 - 01/11/2024'')
           \<lparr> downloadFile := (\<lambda>url token. Inl (Error ''socket hang up'')) \<rparr>)
        (scenario_event [report_file]) initial_state))
   \<and> \<not> timesheetReceivedThisWeek (snd (message_handler2
        ((scenario_world ''TOTAL HOURS: 5:45:10 01/05/2024 - 01/11/2024'')
           \<lparr> pdf_parse := (\<lambda>pdfBuffer. Inl (Error ''Invalid PDF structure'')) \<rparr>)
        (scenario_event [report_file]) initial_state))
   \<and> \<not> timesheetReceivedThisWeek (snd (message_handler2
        (scenario_world ''Weekly report without a total'')
        (scenario_event [report_file]) initial_state))"
proof -
  let ?t = "''TOTAL HOURS: 5:45:10 01/05/2024 - 01/11/2024''"
  let ?e = "scenario_event [report_file]"
  let ?w1 = "(scenario_world ?t)
           \<lparr> postMessage := (\<lambda>n ch msg. if ch = Some ''U_HR''
                                        then Some (Error ''channel_not_found'') else None) \<rparr>"
  let ?w2 = "(scenario_world ?t) \<lparr> downloadFile := (\<lambda>url token. Inl (Error ''socket hang up'')) \<rparr>"
  let ?w3 = "(scenario_world ?t) \<lparr> pdf_parse := (\<lambda>pdfBuffer. Inl (Error ''Invalid PDF structure'')) \<rparr>"
  let ?w4 = "scenario_world ''Weekly report without a total''"
  have files: "files ?e = Some [report_file]" "find isPdf [report_file] = Some report_file"
    by (simp_all add: scenario_event_def report_file_recognized)
  have run: "message_handler2 w ?e initial_state
      = (fst (message_handler2 w ?e initial_state), snd (message_handler2 w ?e initial_state))" for w
    by simp
  have init: "\<not> timesheetReceivedThisWeek initial_state"
    by (simp add: initial_state_def)
  have nototal: "parseTogglPdf2 (\<lambda>b. Inr ''Weekly report without a total'') pdfBuffer
      = Inl (Error ''Could not find TOTAL HOURS in the PDF'')" for pdfBuffer
    by (simp add: parseTogglPdf2_def match_eval del: matchHere.simps(2))
  have a: "\<not> timesheetReceivedThisWeek (snd (message_handler2 ?w1 ?e initial_state))"
    using tracker_unchanged_on_failure [OF files run [of ?w1]] init
    by (simp add: scenario_world_def scenario_parse scenario_message config_employeeName_def)
  have b: "\<not> timesheetReceivedThisWeek (snd (message_handler2 ?w2 ?e initial_state))"
    using tracker_unchanged_on_failure [OF files run [of ?w2]] init
    by (simp add: scenario_world_def)
  have c: "\<not> timesheetReceivedThisWeek (snd (message_handler2 ?w3 ?e initial_state))"
    using tracker_unchanged_on_failure [OF files run [of ?w3]] init
    by (simp add: scenario_world_def)
  have d: "\<not> timesheetReceivedThisWeek (snd (message_handler2 ?w4 ?e initial_state))"
    using tracker_unchanged_on_failure [OF files run [of ?w4]] init
    by (simp add: scenario_world_def nototal)
  from a b c d show ?thesis by blast
qed









end
